theory Spec2Isabelle
  imports Complex_Main
begin

section \<open>Python values used by the watcher\<close>

subsection \<open>Binary64 arithmetic\<close>

text \<open>
  \<^verbatim>\<open>watcher.py\<close> computes the error rate and the age of the last alert with Python
  floats, which are IEEE 754 binary64 numbers. Every finite binary64 number is a rational,
  and each arithmetic operation returns the exact result rounded to the nearest binary64
  number, ties to the even significand. \<open>round_double\<close> is that rounding on the
  rationals: the significand has 53 bits, the least exponent of the unit in the last place
  is \<open>-1074\<close> (subnormal numbers). Overflow to infinity is not modelled: the watcher divides
  a count by a length that is at least the count, multiplies the quotient by 100 and
  subtracts two clock readings, all far below \<open>2 ^ 1024\<close>.
\<close>

function bitlen :: "int \<Rightarrow> int" where
  "bitlen n = (if n \<le> 0 then 0 else 1 + bitlen (n div 2))"
  by auto
termination
  by (relation "measure nat") auto

declare bitlen.simps [simp del]

definition binade :: "rat \<Rightarrow> int" where
  \<comment> \<open>for \<open>0 < x\<close>: the integer \<open>k\<close> with \<open>2 ^ k \<le> x < 2 ^ (k + 1)\<close>\<close>
  "binade x =
     (let (n, d) = quotient_of x;
          k = bitlen n - bitlen d
      in if power_int 2 k \<le> x then k else k - 1)"

definition round_half_even :: "rat \<Rightarrow> int" where
  "round_half_even x =
     (let f = \<lfloor>x\<rfloor>; d = x - of_int f
      in if d < 1 / 2 then f
         else if 1 / 2 < d then f + 1
         else if even f then f else f + 1)"

definition ulp_exponent :: "rat \<Rightarrow> int" where
  "ulp_exponent a = max (binade a - 52) (- 1074)"

definition round_double :: "rat \<Rightarrow> rat" where
  "round_double x =
     (if x = 0 then 0
      else let a = \<bar>x\<bar>;
               e = ulp_exponent a;
               m = round_half_even (a / power_int 2 e)
           in sgn x * of_int m * power_int 2 e)"

definition fdiv :: "int \<Rightarrow> int \<Rightarrow> rat" where
  \<comment> \<open>Python's \<open>a / b\<close> on two ints with \<open>b \<noteq> 0\<close>: the correctly rounded quotient\<close>
  "fdiv a b = round_double (of_int a / of_int b)"

definition fmul :: "rat \<Rightarrow> rat \<Rightarrow> rat" where
  "fmul x y = round_double (x * y)"

definition fsub :: "rat \<Rightarrow> rat \<Rightarrow> rat" where
  "fsub x y = round_double (x - y)"

text \<open>
  \<open>ERROR_THRESHOLD\<close> is \<^verbatim>\<open>float(os.getenv(...))\<close>, which also accepts \<^verbatim>\<open>inf\<close>, \<^verbatim>\<open>-inf\<close>
  and \<^verbatim>\<open>nan\<close>. \<open>float_gt x t\<close> is Python's \<open>x > t\<close> for a finite \<open>x\<close>.
\<close>

datatype pyfloat = Finite rat | PosInf | NegInf | NaN

fun float_gt :: "rat \<Rightarrow> pyfloat \<Rightarrow> bool" where
  "float_gt x (Finite t) = (t < x)"
| "float_gt x PosInf = False"
| "float_gt x NegInf = True"
| "float_gt x NaN = False"

subsection \<open>Strings\<close>

text \<open>
  A Python \<open>str\<close> is modelled as a \<open>string\<close> whose characters are the code points 0 to 255.
  In that range \<^verbatim>\<open>\s\<close>, \<open>str.strip\<close> and \<open>int\<close> agree on the whitespace characters
  (9 to 13, 28 to 32, 133 and 160), and the only decimal digits are \<open>0\<close> to \<open>9\<close>.
  \<open>int\<close> reads an optional sign and decimal digits, with single underscores between
  digits; the limit that an interpreter may put on the number of digits
  (\<open>sys.set_int_max_str_digits\<close>) is not modelled.
\<close>

definition is_space :: "char \<Rightarrow> bool" where
  "is_space c =
     (let n = (of_char c :: nat)
      in (9 \<le> n \<and> n \<le> 13) \<or> (28 \<le> n \<and> n \<le> 32) \<or> n = 133 \<or> n = 160)"

definition strip :: "string \<Rightarrow> string" where
  "strip s = rev (dropWhile is_space (rev (dropWhile is_space s)))"

fun split_sep :: "char \<Rightarrow> string \<Rightarrow> string list" where
  "split_sep sep [] = [[]]"
| "split_sep sep (c # cs) =
     (let r = split_sep sep cs
      in if c = sep then [] # r else (c # hd r) # tl r)"

definition is_digit :: "char \<Rightarrow> bool" where
  "is_digit c = (let n = (of_char c :: nat) in 48 \<le> n \<and> n \<le> 57)"

definition digit_val :: "char \<Rightarrow> int" where
  "digit_val c = int (of_char c) - 48"

fun digits_ok :: "string \<Rightarrow> bool" where
  \<comment> \<open>a digit, then digits each preceded by at most one underscore\<close>
  "digits_ok [] = False"
| "digits_ok [c] = is_digit c"
| "digits_ok (c # d # cs) =
     (is_digit c \<and> (if d = CHR ''_'' then digits_ok cs else digits_ok (d # cs)))"

definition dec_value :: "string \<Rightarrow> int" where
  "dec_value ds = foldl (\<lambda>a c. 10 * a + digit_val c) 0 ds"

definition py_int :: "string \<Rightarrow> int option" where
  \<comment> \<open>\<open>int(s)\<close>; \<open>None\<close> is \<open>ValueError\<close>\<close>
  "py_int s =
     (let t = strip s;
          (neg, body) =
            (case t of
               [] \<Rightarrow> (False, t)
             | c # r \<Rightarrow>
                 if c = CHR ''-'' then (True, r)
                 else if c = CHR ''+'' then (False, r)
                 else (False, t))
      in if digits_ok body
         then Some ((if neg then - 1 else 1) * dec_value (filter (\<lambda>c. c \<noteq> CHR ''_'') body))
         else None)"

subsection \<open>Regular expressions\<close>

text \<open>
  The fragment of \<open>re\<close> that \<open>LOG_PATTERN\<close> uses: literal text, a greedy \<^verbatim>\<open>+\<close> on the classes
  \<^verbatim>\<open>\s\<close> and \<^verbatim>\<open>\S\<close>, named groups and concatenation. \<open>rmatch r (s, g)\<close> lists every way
  in which \<open>r\<close> matches a prefix of \<open>s\<close>, as the remaining input and the groups captured, in
  the order in which the backtracking matcher tries them: a greedy \<^verbatim>\<open>+\<close> takes the longest
  run first and gives characters back one at a time. \<open>re_search\<close> is \<open>Pattern.search\<close>: the
  first match at the leftmost position that has one.
\<close>

datatype cclass = Whitespace | NonWhitespace

datatype regex = Lit string | Plus cclass | Named string regex | Seq regex regex

type_synonym groups = "(string \<times> string) list"

fun in_class :: "cclass \<Rightarrow> char \<Rightarrow> bool" where
  "in_class Whitespace c = is_space c"
| "in_class NonWhitespace c = (\<not> is_space c)"

fun rmatch :: "regex \<Rightarrow> string \<times> groups \<Rightarrow> (string \<times> groups) list" where
  "rmatch (Lit l) (s, g) = (if take (length l) s = l then [(drop (length l) s, g)] else [])"
| "rmatch (Plus c) (s, g) =
     map (\<lambda>k. (drop k s, g)) (rev [1 ..< Suc (length (takeWhile (in_class c) s))])"
| "rmatch (Named n r) (s, g) =
     map (\<lambda>(s', g'). (s', (n, take (length s - length s') s) # g')) (rmatch r (s, g))"
| "rmatch (Seq a b) (s, g) = concat (map (rmatch b) (rmatch a (s, g)))"

fun re_search :: "regex \<Rightarrow> string \<Rightarrow> groups option" where
  "re_search r [] = (case rmatch r ([], []) of [] \<Rightarrow> None | m # _ \<Rightarrow> Some (snd m))"
| "re_search r (c # cs) =
     (case rmatch r (c # cs, []) of [] \<Rightarrow> re_search r cs | m # _ \<Rightarrow> Some (snd m))"

definition match_group :: "groups \<Rightarrow> string \<Rightarrow> string option" where
  \<comment> \<open>\<open>match.group(name)\<close>; \<open>None\<close> for a group that took no part in the match\<close>
  "match_group g n = map_of g n"

section \<open>The watcher\<close>

subsection \<open>Configuration and state\<close>

text \<open>
  The module-level configuration (lines 17 to 21). \<open>WINDOW_SIZE\<close> is a natural number:
  with a negative value \<open>deque(maxlen=WINDOW_SIZE)\<close> raises at import and nothing runs.
  \<open>DEPLOYMENT_OWNER\<close> and \<open>ENVIRONMENT_NAME\<close> only decorate the message text.
\<close>

record config =
  SLACK_WEBHOOK :: string
  ERROR_THRESHOLD :: pyfloat
  WINDOW_SIZE :: nat
  COOLDOWN :: int
  MAINTENANCE_MODE :: bool

text \<open>The global variables of lines 30 to 33.\<close>

record watcher =
  last_pool :: "string option"
  last_failover_alert :: rat
  last_error_alert :: rat
  request_window :: "int list"

definition initial :: watcher where
  "initial = \<lparr>last_pool = None, last_failover_alert = 0, last_error_alert = 0,
               request_window = []\<rparr>"

definition LOG_PATTERN :: regex where
  "LOG_PATTERN =
     Seq (Lit ''pool='') (Seq (Named ''pool'' (Plus NonWhitespace)) (Seq (Plus Whitespace)
    (Seq (Lit ''release='') (Seq (Named ''release'' (Plus NonWhitespace)) (Seq (Plus Whitespace)
    (Seq (Lit ''upstream_status='') (Named ''status'' (Plus NonWhitespace))))))))"

text \<open>
  \<open>deque.append\<close> on a deque with \<open>maxlen = cap\<close>: nothing is stored when \<open>cap = 0\<close>;
  otherwise the element goes to the right end and, if the deque is then longer than \<open>cap\<close>,
  the leftmost element is removed.
\<close>

definition deque_append :: "nat \<Rightarrow> 'a list \<Rightarrow> 'a \<Rightarrow> 'a list" where
  "deque_append cap w x =
     (if cap = 0 then w
      else let w' = w @ [x] in if cap < length w' then tl w' else w')"

subsection \<open>Effects\<close>

text \<open>
  Each function returns the trace of what it did, in program order, and the new state.
  An alert is kept as the values its message is formatted from, the constants of the
  configuration apart. Besides the prints, the
  window append and the HTTP post, the trace marks the two calls made for every record
  (\<open>DetectFailoverCall\<close>, \<open>CheckErrorRateCall\<close>) and the two detections
  (\<open>FailoverEvent\<close> when the branch of line 147 is taken, \<open>BreachEvent\<close> when the branch of
  line 123 is taken), which happen before the cooldown is looked at. The reply of the
  webhook only selects the line printed after the post and is left out.
\<close>

datatype alert = FailoverAlert string string | ErrorAlert rat nat nat

fun alert_type :: "alert \<Rightarrow> string" where
  "alert_type (FailoverAlert old new) = ''failover''"
| "alert_type (ErrorAlert rate errors n) = ''error''"

datatype event =
    WindowAppend int
  | StatusPrinted "string option" int
  | DetectFailoverCall string
  | InitialPoolPrinted string
  | FailoverEvent string string
  | FailoverPrinted string string
  | CheckErrorRateCall
  | BreachEvent rat
  | SlackPost alert
  | SuppressedPrinted string

datatype error = ZeroDivisionError

subsection \<open>The functions of \<^verbatim>\<open>watcher.py\<close>\<close>

definition send_slack_alert :: "config \<Rightarrow> alert \<Rightarrow> event list" where
  "send_slack_alert cfg a =
     (if SLACK_WEBHOOK cfg = [] \<or> MAINTENANCE_MODE cfg
      then [SuppressedPrinted (alert_type a)]
      else [SlackPost a])"

definition cooldown_over :: "config \<Rightarrow> rat \<Rightarrow> rat \<Rightarrow> bool" where
  \<comment> \<open>\<open>now - last_alert > COOLDOWN\<close>: a float subtraction, then an exact comparison with an int\<close>
  "cooldown_over cfg now prev = (of_int (COOLDOWN cfg) < fsub now prev)"

definition count_errors :: "int list \<Rightarrow> nat" where
  "count_errors w = length (filter (\<lambda>status. 500 \<le> status) w)"

definition error_rate :: "int list \<Rightarrow> rat" where
  \<comment> \<open>line 121, for a window that is not empty\<close>
  "error_rate w = fmul (fdiv (int (count_errors w)) (int (length w))) 100"

definition check_error_rate :: "config \<Rightarrow> rat \<Rightarrow> watcher \<Rightarrow> event list \<times> watcher \<times> error option" where
  "check_error_rate cfg now s =
     (let w = request_window s in
      if length w < WINDOW_SIZE cfg then ([CheckErrorRateCall], s, None)
      else if length w = 0 then ([CheckErrorRateCall], s, Some ZeroDivisionError)
      else if float_gt (error_rate w) (ERROR_THRESHOLD cfg) then
        if cooldown_over cfg now (last_error_alert s)
        then ([CheckErrorRateCall, BreachEvent (error_rate w)]
                @ send_slack_alert cfg (ErrorAlert (error_rate w) (count_errors w) (length w)),
              s\<lparr>last_error_alert := now\<rparr>, None)
        else ([CheckErrorRateCall, BreachEvent (error_rate w)], s, None)
      else ([CheckErrorRateCall], s, None))"

definition detect_failover :: "config \<Rightarrow> rat \<Rightarrow> string \<Rightarrow> watcher \<Rightarrow> event list \<times> watcher" where
  "detect_failover cfg now current_pool s =
     (case last_pool s of
        None \<Rightarrow>
          ([DetectFailoverCall current_pool, InitialPoolPrinted current_pool],
           s\<lparr>last_pool := Some current_pool\<rparr>)
      | Some old \<Rightarrow>
          if current_pool \<noteq> old then
            if cooldown_over cfg now (last_failover_alert s)
            then ([DetectFailoverCall current_pool, FailoverEvent old current_pool]
                    @ send_slack_alert cfg (FailoverAlert old current_pool)
                    @ [FailoverPrinted old current_pool],
                  s\<lparr>last_failover_alert := now, last_pool := Some current_pool\<rparr>)
            else ([DetectFailoverCall current_pool, FailoverEvent old current_pool],
                  s\<lparr>last_pool := Some current_pool\<rparr>)
          else ([DetectFailoverCall current_pool], s))"

definition parse_status :: "string option \<Rightarrow> int" where
  \<comment> \<open>lines 172 to 176; \<open>None.split\<close> is the \<open>AttributeError\<close>\<close>
  "parse_status status_str =
     (case status_str of
        None \<Rightarrow> 0
      | Some t \<Rightarrow> (case py_int (strip (last (split_sep CHR '':'' t))) of
                     None \<Rightarrow> 0
                   | Some v \<Rightarrow> v))"

definition valid_pool :: "string option \<Rightarrow> bool" where
  \<comment> \<open>\<open>pool and pool != '-'\<close>\<close>
  "valid_pool pool = (case pool of None \<Rightarrow> False | Some p \<Rightarrow> p \<noteq> [] \<and> p \<noteq> ''-'')"

text \<open>
  \<open>handle_record\<close> is the body of the \<open>if match:\<close> of \<open>process_log_line\<close> (lines 168 to
  190). The clock is read at most once in \<open>detect_failover\<close> and at most once in
  \<open>check_error_rate\<close>; the pair \<open>clock\<close> holds what \<open>time.time()\<close> returns in the
  first and in the second.
\<close>

definition handle_record ::
  "config \<Rightarrow> rat \<times> rat \<Rightarrow> string option \<Rightarrow> string option \<Rightarrow> watcher
     \<Rightarrow> event list \<times> watcher \<times> error option" where
  "handle_record cfg clock pool status_str s =
     (let status = parse_status status_str;
          s1 = s\<lparr>request_window := deque_append (WINDOW_SIZE cfg) (request_window s) status\<rparr>;
          ev1 = [WindowAppend status, StatusPrinted pool status];
          (ev2, s2) = (if valid_pool pool then detect_failover cfg (fst clock) (the pool) s1
                       else ([], s1));
          (ev3, s3, exc) = check_error_rate cfg (snd clock) s2
      in (ev1 @ ev2 @ ev3, s3, exc))"

definition process_log_line ::
  "config \<Rightarrow> rat \<times> rat \<Rightarrow> string \<Rightarrow> watcher \<Rightarrow> event list \<times> watcher \<times> error option" where
  "process_log_line cfg clock line s =
     (case re_search LOG_PATTERN line of
        None \<Rightarrow> ([], s, None)
      | Some m \<Rightarrow> handle_record cfg clock (match_group m ''pool'') (match_group m ''status'') s)"

text \<open>
  The loop of \<open>tail_log\<close> (lines 230 to 232) over the lines that \<open>tail\<close> delivers, each
  with the clock readings of its processing. An exception leaves the loop and ends the
  process.
\<close>

fun tail_log :: "config \<Rightarrow> ((rat \<times> rat) \<times> string) list \<Rightarrow> watcher \<Rightarrow> event list \<times> watcher \<times> error option" where
  "tail_log cfg [] s = ([], s, None)"
| "tail_log cfg ((clock, line) # rest) s =
     (case process_log_line cfg clock (strip line) s of
        (ev, s', Some e) \<Rightarrow> (ev, s', Some e)
      | (ev, s', None) \<Rightarrow>
          (case tail_log cfg rest s' of (ev', r) \<Rightarrow> (ev @ ev', r)))"

section \<open>Notions for the statements\<close>

text \<open>
  The definitions of this section are not code of the watcher. They read a trace, feed the
  detector with a sequence of observations, and name the conditions that the properties
  below are about.
\<close>

subsection \<open>Reading a trace\<close>

definition failover_events :: "event list \<Rightarrow> (string \<times> string) list" where
  "failover_events tr =
     concat (map (\<lambda>e. case e of FailoverEvent old new \<Rightarrow> [(old, new)] | _ \<Rightarrow> []) tr)"

definition breach_rates :: "event list \<Rightarrow> rat list" where
  "breach_rates tr = concat (map (\<lambda>e. case e of BreachEvent r \<Rightarrow> [r] | _ \<Rightarrow> []) tr)"

definition slack_posts :: "event list \<Rightarrow> alert list" where
  "slack_posts tr = concat (map (\<lambda>e. case e of SlackPost a \<Rightarrow> [a] | _ \<Rightarrow> []) tr)"

definition dispatched :: "event list \<Rightarrow> string list" where
  \<comment> \<open>the calls of \<open>send_slack_alert\<close>, by alert type\<close>
  "dispatched tr =
     concat (map (\<lambda>e. case e of SlackPost a \<Rightarrow> [alert_type a]
                           | SuppressedPrinted k \<Rightarrow> [k] | _ \<Rightarrow> []) tr)"

fun is_step :: "event \<Rightarrow> bool" where
  "is_step (WindowAppend v) = True"
| "is_step (DetectFailoverCall p) = True"
| "is_step CheckErrorRateCall = True"
| "is_step e = False"

definition steps :: "event list \<Rightarrow> event list" where
  "steps tr = filter is_step tr"

fun drop_post :: "event \<Rightarrow> event" where
  \<comment> \<open>what \<open>send_slack_alert\<close> does instead of the post when the alert is dropped\<close>
  "drop_post (SlackPost a) = SuppressedPrinted (alert_type a)"
| "drop_post e = e"

text \<open>The failover detector fed with a sequence of pool observations and clock readings.\<close>

fun observe :: "config \<Rightarrow> (rat \<times> string) list \<Rightarrow> watcher \<Rightarrow> event list \<times> watcher" where
  "observe cfg [] s = ([], s)"
| "observe cfg ((now, p) # rest) s =
     (case detect_failover cfg now p s of
        (ev, s') \<Rightarrow> (case observe cfg rest s' of (ev', s'') \<Rightarrow> (ev @ ev', s'')))"

text \<open>The pairs of neighbours that differ in a sequence of pools.\<close>

fun pool_changes :: "string list \<Rightarrow> (string \<times> string) list" where
  "pool_changes (a # b # rest) = (if a = b then [] else [(a, b)]) @ pool_changes (b # rest)"
| "pool_changes ps = []"

text \<open>
  What the processing of one line does to the window and which checks it calls, in order.
\<close>

definition line_steps :: "string \<Rightarrow> event list" where
  "line_steps line =
     (case re_search LOG_PATTERN line of
        None \<Rightarrow> []
      | Some m \<Rightarrow>
          [WindowAppend (parse_status (match_group m ''status''))]
            @ (if valid_pool (match_group m ''pool'') then [DetectFailoverCall (the (match_group m ''pool''))]
               else [])
            @ [CheckErrorRateCall])"

subsection \<open>What the log pattern accepts\<close>






subsection \<open>Triggers\<close>

text \<open>
  When the two checks reach their cooldown test: \<open>detect_failover\<close> when a pool is tracked
  and the observed pool differs (line 147), \<open>check_error_rate\<close> when the window is full
  and its rate is above the threshold (lines 117 to 123).
\<close>

definition failover_trigger :: "watcher \<Rightarrow> string \<Rightarrow> bool" where
  "failover_trigger s p = (case last_pool s of None \<Rightarrow> False | Some old \<Rightarrow> p \<noteq> old)"

definition breach_trigger :: "config \<Rightarrow> watcher \<Rightarrow> bool" where
  "breach_trigger cfg s =
     (WINDOW_SIZE cfg \<le> length (request_window s) \<and> request_window s \<noteq> []
      \<and> float_gt (error_rate (request_window s)) (ERROR_THRESHOLD cfg))"

subsection \<open>Whitespace-separated tokens\<close>






subsection \<open>Alerts along a run\<close>

text \<open>
  The log of a category along a run of \<open>tail_log\<close>: for every line whose processing
  triggers the category (a \<open>FailoverEvent\<close>, or a \<open>BreachEvent\<close>, in its trace), the clock
  reading of the check and whether \<open>send_slack_alert\<close> was called for the category. Like
  \<open>tail_log\<close>, the log ends with the line that raises.
\<close>

definition failover_entry :: "rat \<times> rat \<Rightarrow> event list \<Rightarrow> (rat \<times> bool) list" where
  "failover_entry clock ev =
     (if failover_events ev = [] then [] else [(fst clock, ''failover'' \<in> set (dispatched ev))])"

definition error_entry :: "rat \<times> rat \<Rightarrow> event list \<Rightarrow> (rat \<times> bool) list" where
  "error_entry clock ev =
     (if breach_rates ev = [] then [] else [(snd clock, ''error'' \<in> set (dispatched ev))])"

fun alert_log ::
  "(rat \<times> rat \<Rightarrow> event list \<Rightarrow> (rat \<times> bool) list) \<Rightarrow> config
     \<Rightarrow> ((rat \<times> rat) \<times> string) list \<Rightarrow> watcher \<Rightarrow> (rat \<times> bool) list" where
  "alert_log entry cfg [] s = []"
| "alert_log entry cfg ((clock, line) # rest) s =
     (case process_log_line cfg clock (strip line) s of
        (ev, s', Some e) \<Rightarrow> entry clock ev
      | (ev, s', None) \<Rightarrow> entry clock ev @ alert_log entry cfg rest s')"

definition failover_log ::
  "config \<Rightarrow> ((rat \<times> rat) \<times> string) list \<Rightarrow> watcher \<Rightarrow> (rat \<times> bool) list" where
  "failover_log = alert_log failover_entry"

definition error_log ::
  "config \<Rightarrow> ((rat \<times> rat) \<times> string) list \<Rightarrow> watcher \<Rightarrow> (rat \<times> bool) list" where
  "error_log = alert_log error_entry"

text \<open>
  The alert governor of the specification, with the cooldown test of the code: given the
  timer of a category and the times of its triggers, a trigger is dispatched when the
  cooldown is over since the timer, and then its time is the new timer.
  \<open>last_dispatch\<close> is the timer after a log, \<open>dispatch_times\<close> the times of the
  dispatched triggers, and \<open>spaced c\<close> says that each time of a sequence is more than
  \<open>c\<close> after the one before.
\<close>

fun governor :: "config \<Rightarrow> rat \<Rightarrow> rat list \<Rightarrow> (rat \<times> bool) list" where
  "governor cfg timer [] = []"
| "governor cfg timer (t # ts) =
     (if cooldown_over cfg t timer then (t, True) # governor cfg t ts
      else (t, False) # governor cfg timer ts)"

fun last_dispatch :: "rat \<Rightarrow> (rat \<times> bool) list \<Rightarrow> rat" where
  "last_dispatch timer [] = timer"
| "last_dispatch timer ((t, d) # l) = last_dispatch (if d then t else timer) l"

definition dispatch_times :: "(rat \<times> bool) list \<Rightarrow> rat list" where
  "dispatch_times l = map fst (filter snd l)"

fun spaced :: "rat \<Rightarrow> rat list \<Rightarrow> bool" where
  "spaced c (a # b # r) = (c < b - a \<and> spaced c (b # r))"
| "spaced c ts = True"

text \<open>
  The configuration the examples run with: the defaults of lines 18 to 21 and a webhook.
\<close>

definition default_config :: config where
  "default_config =
     \<lparr>SLACK_WEBHOOK = ''https://hooks.slack.com/services/T0'', ERROR_THRESHOLD = Finite 2,
      WINDOW_SIZE = 200, COOLDOWN = 300, MAINTENANCE_MODE = False\<rparr>"

section \<open>Reading traces\<close>

lemma steps_simps [simp]:
  "steps [] = []"
  "steps (e # tr) = (if is_step e then e # steps tr else steps tr)"
  "steps (tr @ tr') = steps tr @ steps tr'"
  by (simp_all add: steps_def)

lemma slack_posts_simps [simp]:
  "slack_posts [] = []"
  "slack_posts (e # tr) = (case e of SlackPost a \<Rightarrow> [a] | _ \<Rightarrow> []) @ slack_posts tr"
  "slack_posts (tr @ tr') = slack_posts tr @ slack_posts tr'"
  by (simp_all add: slack_posts_def)

lemma dispatched_simps [simp]:
  "dispatched [] = []"
  "dispatched (e # tr) =
     (case e of SlackPost a \<Rightarrow> [alert_type a] | SuppressedPrinted k \<Rightarrow> [k] | _ \<Rightarrow> [])
       @ dispatched tr"
  "dispatched (tr @ tr') = dispatched tr @ dispatched tr'"
  by (simp_all add: dispatched_def)

lemma breach_rates_simps [simp]:
  "breach_rates [] = []"
  "breach_rates (e # tr) = (case e of BreachEvent r \<Rightarrow> [r] | _ \<Rightarrow> []) @ breach_rates tr"
  "breach_rates (tr @ tr') = breach_rates tr @ breach_rates tr'"
  by (simp_all add: breach_rates_def)

lemma steps_send [simp]: "steps (send_slack_alert cfg a) = []"
  by (simp add: send_slack_alert_def)

lemma dispatched_send [simp]: "dispatched (send_slack_alert cfg a) = [alert_type a]"
  by (simp add: send_slack_alert_def)

section \<open>The failover detector\<close>

lemma failover_events_simps [simp]:
  "failover_events [] = []"
  "failover_events (e # tr) =
     (case e of FailoverEvent old new \<Rightarrow> [(old, new)] | _ \<Rightarrow> []) @ failover_events tr"
  "failover_events (tr @ tr') = failover_events tr @ failover_events tr'"
  by (simp_all add: failover_events_def)

lemma failover_events_send [simp]: "failover_events (send_slack_alert cfg a) = []"
  by (simp add: send_slack_alert_def)

lemma detect_failover_events:
  "failover_events (fst (detect_failover cfg now p s)) =
     (case last_pool s of None \<Rightarrow> [] | Some old \<Rightarrow> if p = old then [] else [(old, p)])"
  by (simp add: detect_failover_def split: option.splits)

lemma detect_failover_last_pool: "last_pool (snd (detect_failover cfg now p s)) = Some p"
  by (simp add: detect_failover_def split: option.splits)

lemma observe_events_tracking:
  "last_pool s = Some q \<Longrightarrow>
   failover_events (fst (observe cfg obs s)) = pool_changes (q # map snd obs)"
proof (induction obs arbitrary: s q)
  case Nil
  then show ?case by simp
next
  case (Cons o1 obs)
  obtain now p where o1: "o1 = (now, p)" by (cases o1)
  obtain ev s' where d: "detect_failover cfg now p s = (ev, s')"
    by (cases "detect_failover cfg now p s")
  have lp: "last_pool s' = Some p"
    using detect_failover_last_pool [of cfg now p s] d by simp
  have ev: "failover_events ev = (if p = q then [] else [(q, p)])"
    using detect_failover_events [of cfg now p s] d Cons.prems by simp
  show ?case
    using Cons.IH [OF lp] ev d o1 by (auto split: prod.splits)
qed

lemma observe_events_initial:
  "last_pool s = None \<Longrightarrow>
   failover_events (fst (observe cfg obs s)) = pool_changes (map snd obs)"
proof (cases obs)
  case Nil
  then show ?thesis by simp
next
  case (Cons o1 rest)
  assume n: "last_pool s = None"
  obtain now p where o1: "o1 = (now, p)" by (cases o1)
  obtain ev s' where d: "detect_failover cfg now p s = (ev, s')"
    by (cases "detect_failover cfg now p s")
  have lp: "last_pool s' = Some p"
    using detect_failover_last_pool [of cfg now p s] d by simp
  have ev: "failover_events ev = []"
    using detect_failover_events [of cfg now p s] d n by simp
  show ?thesis
    using observe_events_tracking [OF lp, of cfg rest] ev d o1 Cons by (auto split: prod.splits)
qed

text \<open>
  Claim C2. Fed with any sequence of pool observations, the failover detector produces
  exactly the failover events of the neighbouring observations that differ, each carrying
  (old pool, new pool): the first observation, made while no pool is tracked, produces no
  event; an observation equal to the tracked pool produces no event; an observation that
  differs from the tracked pool produces exactly one event, with the pair (old, new).
\<close>

theorem failover_detector_events:
  "failover_events (fst (observe cfg obs initial)) = pool_changes (map snd obs)
   \<and> (last_pool s = None \<longrightarrow> failover_events (fst (detect_failover cfg now p s)) = [])
   \<and> (last_pool s = Some p \<longrightarrow> failover_events (fst (detect_failover cfg now p s)) = [])
   \<and> (last_pool s = Some old \<and> old \<noteq> p \<longrightarrow>
        failover_events (fst (detect_failover cfg now p s)) = [(old, p)])"
proof -
  have "last_pool initial = None" by (simp add: initial_def)
  then have "failover_events (fst (observe cfg obs initial)) = pool_changes (map snd obs)"
    by (rule observe_events_initial)
  then show ?thesis
    by (auto simp: detect_failover_events)
qed

theorem failover_detector_events_witness:
  "failover_events (fst (observe default_config
      [(1700000000, ''blue''), (1700000001, ''blue''), (1700000002, ''green'')] initial))
     = [(''blue'', ''green'')]
   \<and> failover_events (fst (detect_failover default_config 1700000000 ''blue'' initial)) = []
   \<and> failover_events (fst (detect_failover default_config 1700000001 ''blue''
        (initial\<lparr>last_pool := Some ''blue''\<rparr>))) = []
   \<and> failover_events (fst (detect_failover default_config 1700000002 ''green''
        (initial\<lparr>last_pool := Some ''blue''\<rparr>))) = [(''blue'', ''green'')]"
  using failover_detector_events [of default_config
      "[(1700000000, ''blue''), (1700000001, ''blue''), (1700000002, ''green'')]"
      initial 1700000000 "''blue''" "''green''"]
    failover_detector_events [of default_config "[]"
      "initial\<lparr>last_pool := Some ''blue''\<rparr>" 1700000001 "''blue''" "''green''"]
    failover_detector_events [of default_config "[]"
      "initial\<lparr>last_pool := Some ''blue''\<rparr>" 1700000002 "''green''" "''blue''"]
  by (simp add: initial_def)

section \<open>What each function leaves alone\<close>

lemma check_error_rate_keeps:
  "last_pool (fst (snd (check_error_rate cfg now s))) = last_pool s"
  "last_failover_alert (fst (snd (check_error_rate cfg now s))) = last_failover_alert s"
  "request_window (fst (snd (check_error_rate cfg now s))) = request_window s"
  by (simp_all add: check_error_rate_def Let_def)

lemma detect_failover_keeps:
  "last_error_alert (snd (detect_failover cfg now p s)) = last_error_alert s"
  "request_window (snd (detect_failover cfg now p s)) = request_window s"
  by (simp_all add: detect_failover_def split: option.splits)

lemma steps_check_error_rate: "steps (fst (check_error_rate cfg now s)) = [CheckErrorRateCall]"
  by (simp add: check_error_rate_def Let_def)

lemma steps_detect_failover: "steps (fst (detect_failover cfg now p s)) = [DetectFailoverCall p]"
  by (simp add: detect_failover_def split: option.splits)

lemma check_error_rate_no_error:
  "0 < WINDOW_SIZE cfg \<Longrightarrow> snd (snd (check_error_rate cfg now s)) = None"
  by (simp add: check_error_rate_def Let_def)

lemma handle_record_unfold:
  "handle_record cfg clock pool st s =
     (let status = parse_status st;
          s1 = s\<lparr>request_window := deque_append (WINDOW_SIZE cfg) (request_window s) status\<rparr>;
          d = (if valid_pool pool then detect_failover cfg (fst clock) (the pool) s1 else ([], s1));
          c = check_error_rate cfg (snd clock) (snd d)
      in ([WindowAppend status, StatusPrinted pool status] @ fst d @ fst c, fst (snd c), snd (snd c)))"
  by (simp add: handle_record_def Let_def split: prod.splits)

lemma valid_pool_Some: "valid_pool pool \<Longrightarrow> pool = Some (the pool)"
  by (cases pool) (simp_all add: valid_pool_def)

lemma handle_record_last_pool:
  "last_pool (fst (snd (handle_record cfg clock pool st s))) =
     (if valid_pool pool then pool else last_pool s)"
  using valid_pool_Some [of pool]
  by (simp add: handle_record_unfold Let_def check_error_rate_keeps detect_failover_last_pool)

lemma process_log_line_last_pool:
  "last_pool (fst (snd (process_log_line cfg clock line s))) =
     (case re_search LOG_PATTERN line of
        None \<Rightarrow> last_pool s
      | Some m \<Rightarrow> if valid_pool (match_group m ''pool'') then match_group m ''pool'' else last_pool s)"
  by (simp add: process_log_line_def handle_record_last_pool split: option.splits)

lemma process_log_line_keeps_tracking:
  "last_pool s \<noteq> None \<Longrightarrow> last_pool (fst (snd (process_log_line cfg clock line s))) \<noteq> None"
  using valid_pool_Some
  by (auto simp: process_log_line_last_pool split: option.splits)

lemma tail_log_keeps_tracking:
  "last_pool s \<noteq> None \<Longrightarrow> last_pool (fst (snd (tail_log cfg input s))) \<noteq> None"
proof (induction input arbitrary: s)
  case Nil
  then show ?case by simp
next
  case (Cons a input)
  obtain clock line where a: "a = (clock, line)" by (cases a)
  obtain ev s' r where p: "process_log_line cfg clock (strip line) s = (ev, s', r)"
    by (cases "process_log_line cfg clock (strip line) s")
  have s': "last_pool s' \<noteq> None"
    using process_log_line_keeps_tracking [OF Cons.prems, of cfg clock "strip line"] p by simp
  show ?case
    using Cons.IH [OF s'] s' a p by (cases r) (auto split: prod.splits)
qed

lemma steps_handle_record:
  "steps (fst (handle_record cfg clock pool st s)) =
     [WindowAppend (parse_status st)]
       @ (if valid_pool pool then [DetectFailoverCall (the pool)] else [])
       @ [CheckErrorRateCall]"
  by (simp add: handle_record_unfold Let_def steps_check_error_rate steps_detect_failover)

lemma handle_record_no_error:
  "0 < WINDOW_SIZE cfg \<Longrightarrow> snd (snd (handle_record cfg clock pool st s)) = None"
  by (simp add: handle_record_unfold Let_def check_error_rate_no_error)

lemma handle_record_window:
  "request_window (fst (snd (handle_record cfg clock pool st s))) =
     deque_append (WINDOW_SIZE cfg) (request_window s) (parse_status st)"
  by (simp add: handle_record_unfold Let_def check_error_rate_keeps detect_failover_keeps)

lemma handle_record_sentinel:
  "\<not> valid_pool pool \<Longrightarrow>
   last_failover_alert (fst (snd (handle_record cfg clock pool st s))) = last_failover_alert s"
  by (simp add: handle_record_unfold Let_def check_error_rate_keeps)

lemma dispatched_detect_failover:
  "last_pool s = Some old \<Longrightarrow> old \<noteq> p \<Longrightarrow>
   dispatched (fst (detect_failover cfg now p s)) =
     (if cooldown_over cfg now (last_failover_alert s) then [''failover''] else [])"
  by (simp add: detect_failover_def)

text \<open>
  Claim C7. The detector sets \<open>last_pool\<close> to the pool it observes, whatever the state,
  the clock and the configuration: in particular when the pool differs from the tracked
  one and the cooldown keeps the alert back. Processing a line sets \<open>last_pool\<close> to the
  pool of the record when that pool is valid and leaves it alone otherwise, so a pool once
  tracked is never unset in the run of \<open>tail_log\<close>.
\<close>

theorem tracked_pool_follows_observations:
  "last_pool (snd (detect_failover cfg now p s)) = Some p
   \<and> (last_pool s = Some old \<and> old \<noteq> p \<and> \<not> cooldown_over cfg now (last_failover_alert s) \<longrightarrow>
        dispatched (fst (detect_failover cfg now p s)) = []
        \<and> last_pool (snd (detect_failover cfg now p s)) = Some p)
   \<and> last_pool (fst (snd (process_log_line cfg clock line s))) =
        (case re_search LOG_PATTERN line of
           None \<Rightarrow> last_pool s
         | Some m \<Rightarrow> if valid_pool (match_group m ''pool'') then match_group m ''pool'' else last_pool s)
   \<and> (last_pool s \<noteq> None \<longrightarrow> last_pool (fst (snd (tail_log cfg input s))) \<noteq> None)"
  by (simp add: detect_failover_last_pool dispatched_detect_failover process_log_line_last_pool
      tail_log_keeps_tracking)

theorem tracked_pool_follows_observations_witness:
  "dispatched (fst (detect_failover default_config 1700000100 ''blue''
      \<lparr>last_pool = Some ''green'', last_failover_alert = 1700000010, last_error_alert = 0,
       request_window = []\<rparr>)) = []
   \<and> last_pool (snd (detect_failover default_config 1700000100 ''blue''
      \<lparr>last_pool = Some ''green'', last_failover_alert = 1700000010, last_error_alert = 0,
       request_window = []\<rparr>)) = Some ''blue''
   \<and> last_pool (fst (snd (tail_log default_config
        [((1700000200, 1700000200), ''pool=- release=v1 upstream_status=200''),
         ((1700000201, 1700000201), ''not a record'')]
      \<lparr>last_pool = Some ''green'', last_failover_alert = 1700000010, last_error_alert = 0,
       request_window = []\<rparr>))) \<noteq> None"
proof -
  have c: "\<not> cooldown_over default_config 1700000100 1700000010"
    by code_simp
  show ?thesis
    using tracked_pool_follows_observations [of default_config 1700000100 "''blue''"
        "\<lparr>last_pool = Some ''green'', last_failover_alert = 1700000010, last_error_alert = 0,
          request_window = []\<rparr>" "''green''" "(1700000200, 1700000200)" "''not a record''"
        "[((1700000200, 1700000200), ''pool=- release=v1 upstream_status=200''),
          ((1700000201, 1700000201), ''not a record'')]"] c
    by simp
qed

section \<open>The order of processing\<close>

lemma steps_process_log_line: "steps (fst (process_log_line cfg clock line s)) = line_steps line"
  by (simp add: process_log_line_def line_steps_def steps_handle_record split: option.splits)

lemma process_log_line_no_error:
  "0 < WINDOW_SIZE cfg \<Longrightarrow> snd (snd (process_log_line cfg clock line s)) = None"
  by (simp add: process_log_line_def handle_record_no_error split: option.splits)

lemma tail_log_steps:
  "0 < WINDOW_SIZE cfg \<Longrightarrow>
   steps (fst (tail_log cfg input s)) = concat (map (\<lambda>(clock, line). line_steps (strip line)) input)
   \<and> snd (snd (tail_log cfg input s)) = None"
proof (induction input arbitrary: s)
  case Nil
  then show ?case by simp
next
  case (Cons a input)
  obtain clock line where a: "a = (clock, line)" by (cases a)
  obtain ev s' r where p: "process_log_line cfg clock (strip line) s = (ev, s', r)"
    by (cases "process_log_line cfg clock (strip line) s")
  have r: "r = None"
    using process_log_line_no_error [OF Cons.prems, of clock "strip line" s] p by simp
  have ev: "steps ev = line_steps (strip line)"
    using steps_process_log_line [of cfg clock "strip line" s] p by simp
  show ?case
    using Cons.IH [OF Cons.prems, of s'] a p r ev by (auto split: prod.splits)
qed

text \<open>
  Claim C6, as stated, fails: for a record with a valid pool the claim puts the failover
  check before the append to the window, and the code appends first (line 179), then
  checks the failover (line 187), then the error rate (line 190).
\<close>

theorem append_before_failover_check_counterexample:
  "steps (fst (process_log_line default_config (1700000000, 1700000000)
      ''pool=blue release=v1 upstream_status=200'' initial))
     = [WindowAppend 200, DetectFailoverCall ''blue'', CheckErrorRateCall]"
  by code_simp

text \<open>
  Claim C6, amended. Every line is processed as: parse; if the pattern matches, append the
  status to the window, then check the failover if the pool is valid, then check the error
  rate; nothing otherwise. With a positive window size no line raises, and the run of
  \<open>tail_log\<close> does exactly these steps for every line, in the order of arrival: each
  record is appended once and checked once for the error rate, and each record with a
  valid pool is seen once by the failover detector.
\<close>

theorem processing_order:
  "steps (fst (process_log_line cfg clock line s)) = line_steps line
   \<and> (0 < WINDOW_SIZE cfg \<longrightarrow>
        steps (fst (tail_log cfg input s))
          = concat (map (\<lambda>(clock, line). line_steps (strip line)) input)
        \<and> snd (snd (tail_log cfg input s)) = None)"
  using tail_log_steps [of cfg input s] by (simp add: steps_process_log_line)

theorem processing_order_witness:
  "steps (fst (tail_log default_config
      [((1700000000, 1700000000), ''pool=blue release=v1 upstream_status=200''),
       ((1700000001, 1700000001), ''GET /healthz''),
       ((1700000002, 1700000002), ''pool=- release=v1 upstream_status=503'')] initial))
     = [WindowAppend 200, DetectFailoverCall ''blue'', CheckErrorRateCall,
        WindowAppend 503, CheckErrorRateCall]
   \<and> snd (snd (tail_log default_config
      [((1700000000, 1700000000), ''pool=blue release=v1 upstream_status=200''),
       ((1700000001, 1700000001), ''GET /healthz''),
       ((1700000002, 1700000002), ''pool=- release=v1 upstream_status=503'')] initial)) = None"
proof -
  have w: "0 < WINDOW_SIZE default_config" by (simp add: default_config_def)
  have l: "concat (map (\<lambda>(clock, line). line_steps (strip line))
      [((1700000000 :: rat, 1700000000 :: rat), ''pool=blue release=v1 upstream_status=200''),
       ((1700000001, 1700000001), ''GET /healthz''),
       ((1700000002, 1700000002), ''pool=- release=v1 upstream_status=503'')])
     = [WindowAppend 200, DetectFailoverCall ''blue'', CheckErrorRateCall,
        WindowAppend 503, CheckErrorRateCall]"
    by code_simp
  show ?thesis
    using processing_order [of default_config "(0, 0)" "''''" initial
      "[((1700000000, 1700000000), ''pool=blue release=v1 upstream_status=200''),
       ((1700000001, 1700000001), ''GET /healthz''),
       ((1700000002, 1700000002), ''pool=- release=v1 upstream_status=503'')]"] w
    by (simp only: l)
qed

section \<open>The window\<close>

lemma deque_append_length: "length w \<le> cap \<Longrightarrow> length (deque_append cap w x) \<le> cap"
  by (auto simp: deque_append_def Let_def)

lemma foldl_deque_append:
  "length w \<le> cap \<Longrightarrow>
   foldl (deque_append cap) w xs = drop (length w + length xs - cap) (w @ xs)"
proof (induction xs arbitrary: w)
  case Nil
  then show ?case by simp
next
  case (Cons x xs)
  let ?w' = "deque_append cap w x"
  have len: "length ?w' \<le> cap" using Cons.prems by (rule deque_append_length)
  have "foldl (deque_append cap) w (x # xs) = drop (length ?w' + length xs - cap) (?w' @ xs)"
    using Cons.IH [OF len] by simp
  also have "\<dots> = drop (length w + length (x # xs) - cap) (w @ x # xs)"
  proof (cases "length w < cap")
    case True
    then have "?w' = w @ [x]" by (simp add: deque_append_def)
    then show ?thesis by simp
  next
    case False
    then have eq: "length w = cap" using Cons.prems by simp
    show ?thesis
    proof (cases w)
      case Nil
      then have "cap = 0" using eq by simp
      then show ?thesis using Nil by (simp add: deque_append_def)
    next
      case (Cons a w0)
      then have "?w' = w0 @ [x]" using eq by (auto simp: deque_append_def)
      then show ?thesis using Cons eq by auto
    qed
  qed
  finally show ?case .
qed

lemma window_after_insertions:
  "foldl (deque_append cap) [] xs = drop (length xs - cap) xs"
  using foldl_deque_append [of "[]" cap xs] by simp

lemma process_log_line_window_length:
  "length (request_window s) \<le> WINDOW_SIZE cfg \<Longrightarrow>
   length (request_window (fst (snd (process_log_line cfg clock line s)))) \<le> WINDOW_SIZE cfg"
  by (simp add: process_log_line_def handle_record_window deque_append_length split: option.splits)

lemma deque_append_newest:
  "0 < cap \<Longrightarrow> deque_append cap w x \<noteq> [] \<and> last (deque_append cap w x) = x"
  by (cases w) (auto simp: deque_append_def Let_def)

text \<open>
  Claim C9, as stated, fails when \<open>WINDOW_SIZE\<close> is 0: the deque keeps nothing, so after
  capacity + 1 = 1 insertion the newest status is not in the window.
\<close>

theorem empty_window_counterexample:
  "200 \<notin> set (request_window (fst (snd (process_log_line (default_config\<lparr>WINDOW_SIZE := 0\<rparr>)
      (1700000000, 1700000000) ''pool=blue release=v1 upstream_status=200'' initial))))"
  by code_simp

text \<open>
  Claim C9, amended. An append never makes the window longer than the capacity; after any
  sequence of insertions into the empty window, the window holds the last \<open>capacity\<close>
  statuses inserted, in order. With a capacity of at least 1, after capacity + 1
  insertions the window is the sequence without its first entry: the oldest entry is gone
  and the newest is the last of the window. Processing a line keeps the bound.
\<close>

theorem window_fifo:
  "(length (w :: 'a list) \<le> cap \<longrightarrow> length (deque_append cap w x) \<le> cap)
   \<and> length (foldl (deque_append cap) [] (xs :: 'a list)) \<le> cap
   \<and> foldl (deque_append cap) [] xs = drop (length xs - cap) xs
   \<and> (0 < cap \<and> length xs = Suc cap \<longrightarrow>
        foldl (deque_append cap) [] xs = tl xs
        \<and> last (foldl (deque_append cap) [] xs) = last xs
        \<and> (distinct xs \<longrightarrow> hd xs \<notin> set (foldl (deque_append cap) [] xs)))
   \<and> (length (request_window s) \<le> WINDOW_SIZE cfg \<longrightarrow>
        length (request_window (fst (snd (process_log_line cfg clock line s)))) \<le> WINDOW_SIZE cfg)"
proof -
  have fifo: "foldl (deque_append cap) [] xs = drop (length xs - cap) xs"
    by (rule window_after_insertions)
  have bound: "length (foldl (deque_append cap) [] xs) \<le> cap"
    unfolding fifo by simp
  have full: "foldl (deque_append cap) [] xs = tl xs
      \<and> last (foldl (deque_append cap) [] xs) = last xs
      \<and> (distinct xs \<longrightarrow> hd xs \<notin> set (foldl (deque_append cap) [] xs))"
    if "0 < cap \<and> length xs = Suc cap"
  proof (cases xs)
    case Nil
    then show ?thesis using that by simp
  next
    case (Cons a ys)
    then have "ys \<noteq> []" using that by auto
    moreover have "foldl (deque_append cap) [] xs = ys"
      unfolding fifo using that Cons by simp
    ultimately show ?thesis using Cons by simp
  qed
  have one: "length (deque_append cap w x) \<le> cap" if "length w \<le> cap"
    using that by (rule deque_append_length)
  have line: "length (request_window (fst (snd (process_log_line cfg clock line s)))) \<le> WINDOW_SIZE cfg"
    if "length (request_window s) \<le> WINDOW_SIZE cfg"
    using that by (rule process_log_line_window_length)
  show ?thesis
    using fifo bound full one line by blast
qed

theorem window_fifo_witness:
  "length (deque_append 3 [200, 200, 500] (404 :: int)) \<le> 3
   \<and> foldl (deque_append 3) [] [200, 500, 404, 503 :: int] = [500, 404, 503]
   \<and> last (foldl (deque_append 3) [] [200, 500, 404, 503 :: int]) = 503
   \<and> 200 \<notin> set (foldl (deque_append 3) [] [200, 500, 404, 503 :: int])
   \<and> length (request_window (fst (snd (process_log_line default_config (1700000000, 1700000000)
        ''pool=blue release=v1 upstream_status=200'' initial)))) \<le> WINDOW_SIZE default_config"
proof -
  have h: "length [200, 200, 500 :: int] \<le> 3" "0 < (3 :: nat) \<and> length [200, 500, 404, 503 :: int] = Suc 3"
    "distinct [200, 500, 404, 503 :: int]"
    "length (request_window initial) \<le> WINDOW_SIZE default_config"
    by (simp_all add: initial_def)
  have v: "drop (length [200, 500, 404, 503 :: int] - 3) [200, 500, 404, 503 :: int] = [500, 404, 503]"
    by simp
  show ?thesis
    using window_fifo [of "[200, 200, 500 :: int]" 3 404 "[200, 500, 404, 503]" initial default_config
      "(1700000000, 1700000000)" "''pool=blue release=v1 upstream_status=200''"] h v
    by (simp del: foldl_Cons)
qed

section \<open>The log pattern\<close>













text \<open>
  Claim C4. The status is the text after the last colon of the \<open>upstream_status\<close> token,
  read as an integer. The token ends at the first whitespace, so of
  \<^verbatim>\<open>upstream_status=502 : 502 : 200\<close> only \<^verbatim>\<open>502\<close> is read, where the claim and the comment
  of line 173 expect 200; without the spaces the status is 200.
\<close>

theorem status_after_space_is_lost:
  "request_window (fst (snd (process_log_line default_config (1700000000, 1700000000)
      ''pool=blue release=v1 upstream_status=502 : 502 : 200'' initial))) = [502]
   \<and> request_window (fst (snd (process_log_line default_config (1700000000, 1700000000)
      ''pool=blue release=v1 upstream_status=502:502:200'' initial))) = [200]"
  by code_simp

text \<open>
  Claim C5, as stated, fails on its own example: the line \<^verbatim>\<open>pool=- upstream_status=500\<close>
  has no \<^verbatim>\<open>release=\<close> field, the pattern does not match and nothing is appended.
\<close>

theorem sentinel_line_without_release_counterexample:
  "process_log_line default_config (1700000000, 1700000000) ''pool=- upstream_status=500'' initial
     = ([], initial, None)"
  by code_simp

text \<open>
  Claim C5, amended. For a line in which the pattern is found with the pool \<^verbatim>\<open>-\<close>, the
  status is appended to the window (and is its newest entry, unless the capacity is 0) and
  the error rate is checked, \<open>detect_failover\<close> is not called, and the tracked pool and
  the time of the last failover alert stay as they were.
\<close>

theorem sentinel_pool_is_counted_not_tracked:
  assumes "re_search LOG_PATTERN line = Some m" and "match_group m ''pool'' = Some ''-''"
  shows "request_window (fst (snd (process_log_line cfg clock line s)))
           = deque_append (WINDOW_SIZE cfg) (request_window s) (parse_status (match_group m ''status''))
     \<and> steps (fst (process_log_line cfg clock line s))
           = [WindowAppend (parse_status (match_group m ''status'')), CheckErrorRateCall]
     \<and> (0 < WINDOW_SIZE cfg \<longrightarrow>
          last (request_window (fst (snd (process_log_line cfg clock line s))))
            = parse_status (match_group m ''status''))
     \<and> last_pool (fst (snd (process_log_line cfg clock line s))) = last_pool s
     \<and> last_failover_alert (fst (snd (process_log_line cfg clock line s))) = last_failover_alert s"
proof -
  have v: "\<not> valid_pool (match_group m ''pool'')"
    using assms(2) by (simp add: valid_pool_def)
  show ?thesis
    using assms(1) v
    by (simp add: process_log_line_def handle_record_window steps_handle_record
        handle_record_last_pool handle_record_sentinel deque_append_newest)
qed

theorem sentinel_pool_is_counted_not_tracked_witness:
  "request_window (fst (snd (process_log_line default_config (1700000000, 1700000000)
      ''pool=- release=v1 upstream_status=500'' initial))) = [500]
   \<and> steps (fst (process_log_line default_config (1700000000, 1700000000)
      ''pool=- release=v1 upstream_status=500'' initial)) = [WindowAppend 500, CheckErrorRateCall]
   \<and> last (request_window (fst (snd (process_log_line default_config (1700000000, 1700000000)
      ''pool=- release=v1 upstream_status=500'' initial)))) = 500
   \<and> last_pool (fst (snd (process_log_line default_config (1700000000, 1700000000)
      ''pool=- release=v1 upstream_status=500'' initial))) = None"
proof -
  have m: "re_search LOG_PATTERN ''pool=- release=v1 upstream_status=500''
             = Some [(''status'', ''500''), (''release'', ''v1''), (''pool'', ''-'')]"
    by code_simp
  have g: "match_group [(''status'', ''500''), (''release'', ''v1''), (''pool'', ''-'')] ''pool'' = Some ''-''"
    by code_simp
  have st: "parse_status (match_group [(''status'', ''500''), (''release'', ''v1''), (''pool'', ''-'')] ''status'') = 500"
    by code_simp
  have d: "deque_append (WINDOW_SIZE default_config) (request_window initial) 500 = [500]"
    by code_simp
  have n: "last_pool initial = None" by (simp add: initial_def)
  have w: "0 < WINDOW_SIZE default_config" by (simp add: default_config_def)
  show ?thesis
    using sentinel_pool_is_counted_not_tracked [OF m g, of default_config "(1700000000, 1700000000)" initial] w
    by (simp only: st d n) simp
qed

section \<open>Rounding to binary64\<close>

lemma round_half_even_error: "\<bar>of_int (round_half_even z) - z\<bar> \<le> 1 / 2"
proof -
  have "of_int \<lfloor>z\<rfloor> \<le> z" "z < of_int \<lfloor>z\<rfloor> + 1"
    by linarith+
  then show ?thesis
    unfolding round_half_even_def Let_def by (auto simp: abs_le_iff) 
qed

lemma bitlen_bounds:
  "0 < n \<Longrightarrow> 0 < bitlen n \<and> 2 ^ nat (bitlen n - 1) \<le> n \<and> n < 2 ^ nat (bitlen n)"
proof (induction n rule: bitlen.induct)
  case (1 n)
  show ?case
  proof (cases "n div 2 \<le> 0")
    case True
    then have n: "n = 1" using "1.prems" by linarith
    have "bitlen 1 = 1"
      by (simp add: bitlen.simps [of 1] bitlen.simps [of 0])
    then show ?thesis using n by simp
  next
    case False
    then have pos: "0 < n div 2" by simp
    have ih: "0 < bitlen (n div 2)" "2 ^ nat (bitlen (n div 2) - 1) \<le> n div 2"
      "n div 2 < 2 ^ nat (bitlen (n div 2))"
      using "1.IH" [OF _ pos] "1.prems" by simp_all
    have b: "bitlen n = 1 + bitlen (n div 2)"
      using "1.prems" by (simp add: bitlen.simps [of n])
    have e1: "nat (bitlen n - 1) = Suc (nat (bitlen (n div 2) - 1))"
      using ih(1) b by simp
    have e2: "nat (bitlen n) = Suc (nat (bitlen (n div 2)))"
      using ih(1) b by simp
    have "2 * (n div 2) \<le> n" "n < 2 * (n div 2) + 2" by linarith+
    then show ?thesis
      using ih b unfolding e1 e2 by simp
  qed
qed

lemma bitlen_bounds_rat:
  assumes "0 < n"
  shows "power_int 2 (bitlen n - 1) \<le> (of_int n :: rat)" "(of_int n :: rat) < power_int 2 (bitlen n)"
proof -
  from bitlen_bounds [OF assms] have b: "0 < bitlen n" "2 ^ nat (bitlen n - 1) \<le> n" "n < 2 ^ nat (bitlen n)"
    by simp_all
  have "(of_int (2 ^ nat (bitlen n - 1)) :: rat) \<le> of_int n"
    using b(2) by (simp only: of_int_le_iff)
  then show "power_int 2 (bitlen n - 1) \<le> (of_int n :: rat)"
    using b(1) by (simp add: power_int_def)
  have "(of_int n :: rat) < of_int (2 ^ nat (bitlen n))"
    using b(3) by (simp only: of_int_less_iff)
  then show "(of_int n :: rat) < power_int 2 (bitlen n)"
    using b(1) by (simp add: power_int_def)
qed

lemma binade_bounds:
  assumes "0 < x"
  shows "power_int 2 (binade x) \<le> x" "x < power_int 2 (binade x + 1)"
proof -
  obtain n d where q: "quotient_of x = (n, d)" by (cases "quotient_of x")
  have d: "0 < d" using q by (rule quotient_of_denom_pos)
  have x: "x = of_int n / of_int d" using q by (rule quotient_of_div)
  have n: "0 < n"
    using assms d unfolding x by (simp add: zero_less_divide_iff)
  let ?k = "bitlen n - bitlen d"
  note bn = bitlen_bounds_rat [OF n] and bd = bitlen_bounds_rat [OF d]
  have dpos: "(0 :: rat) < of_int d" using d by simp
  have lo: "power_int 2 (?k - 1) \<le> x"
  proof -
    have "power_int 2 (?k - 1) * (of_int d :: rat) \<le> power_int 2 (?k - 1) * power_int 2 (bitlen d)"
      using bd(2) by (intro mult_left_mono) simp_all
    also have "\<dots> = power_int 2 (bitlen n - 1)"
      by (simp add: power_int_add [symmetric])
    also have "\<dots> \<le> of_int n" by (rule bn(1))
    finally show ?thesis
      unfolding x using dpos by (simp add: pos_le_divide_eq)
  qed
  have hi: "x < power_int 2 (?k + 1)"
  proof -
    have "(of_int n :: rat) < power_int 2 (bitlen n)" by (rule bn(2))
    also have "\<dots> = power_int 2 (?k + 1) * power_int 2 (bitlen d - 1)"
      by (simp add: power_int_add [symmetric])
    also have "\<dots> \<le> power_int 2 (?k + 1) * of_int d"
      using bd(1) by (intro mult_left_mono) simp_all
    finally show ?thesis
      unfolding x using dpos by (simp add: pos_divide_less_eq)
  qed
  have b: "binade x = (if power_int 2 ?k \<le> x then ?k else ?k - 1)"
    by (simp add: binade_def q)
  show "power_int 2 (binade x) \<le> x"
    using lo unfolding b by simp
  show "x < power_int 2 (binade x + 1)"
    using hi unfolding b by (simp add: not_le)
qed

lemma round_double_error:
  "\<bar>round_double x - x\<bar> \<le> power_int 2 (ulp_exponent \<bar>x\<bar>) / 2"
proof (cases "x = 0")
  case True
  then show ?thesis by (simp add: round_double_def)
next
  case False
  define g :: rat where "g = power_int 2 (ulp_exponent \<bar>x\<bar>)"
  define z where "z = \<bar>x\<bar> / g"
  define m where "m = round_half_even z"
  have g: "0 < g" by (simp add: g_def)
  have r: "round_double x = sgn x * of_int m * g"
    using False by (simp add: round_double_def Let_def g_def z_def m_def)
  have x: "x = sgn x * z * g"
    using g by (simp add: z_def sgn_mult_abs)
  have "round_double x - x = sgn x * g * (of_int m - z)"
    by (subst r, subst (2) x) (simp add: algebra_simps)
  then have "\<bar>round_double x - x\<bar> = g * \<bar>of_int m - z\<bar>"
    using False g by (simp add: abs_mult abs_sgn_eq)
  also have "\<dots> \<le> g * (1 / 2)"
    using round_half_even_error [of z] g unfolding m_def by (intro mult_left_mono) simp_all
  finally show ?thesis by (simp add: g_def)
qed

lemma binade_less:
  assumes "0 < a" and "a < power_int 2 (k + 1)"
  shows "binade a \<le> k"
proof (rule ccontr)
  assume "\<not> binade a \<le> k"
  then have "k + 1 \<le> binade a" by simp
  then have "power_int (2 :: rat) (k + 1) \<le> power_int 2 (binade a)"
    by (intro power_int_increasing) simp_all
  also have "\<dots> \<le> a" using binade_bounds(1) [OF assms(1)] .
  finally show False using assms(2) by simp
qed

lemma round_double_error_below:
  assumes "\<bar>x\<bar> < power_int 2 (k + 1)" and "- 1022 \<le> k"
  shows "\<bar>round_double x - x\<bar> \<le> power_int 2 (k - 53)"
proof (cases "x = 0")
  case True
  then show ?thesis by (simp add: round_double_def)
next
  case False
  then have a: "0 < \<bar>x\<bar>" by simp
  have "ulp_exponent \<bar>x\<bar> \<le> k - 52"
    using binade_less [OF a assms(1)] assms(2) by (simp add: ulp_exponent_def)
  then have "power_int (2 :: rat) (ulp_exponent \<bar>x\<bar>) \<le> power_int 2 (k - 52)"
    by (intro power_int_increasing) simp_all
  also have "\<dots> = 2 * power_int 2 (k - 53)"
    using power_int_add [of "2 :: rat" 1 "k - 53"] by simp
  finally show ?thesis
    using round_double_error [of x] by simp
qed

lemma round_half_even_le: "z \<le> of_int j \<Longrightarrow> round_half_even z \<le> j"
proof -
  assume z: "z \<le> of_int j"
  then have f: "\<lfloor>z\<rfloor> \<le> j" by (simp add: floor_le_iff)
  show ?thesis
  proof (cases "\<lfloor>z\<rfloor> < j")
    case True
    then show ?thesis by (simp add: round_half_even_def Let_def)
  next
    case False
    then have "\<lfloor>z\<rfloor> = j" using f by simp
    moreover have "of_int \<lfloor>z\<rfloor> \<le> z" by simp
    ultimately have "z = of_int j" using z by simp
    then show ?thesis by (simp add: round_half_even_def Let_def)
  qed
qed

lemma round_half_even_ge: "of_int j \<le> z \<Longrightarrow> j \<le> round_half_even z"
proof -
  assume "of_int j \<le> z"
  then have "j \<le> \<lfloor>z\<rfloor>" by (simp add: le_floor_iff)
  then show ?thesis by (simp add: round_half_even_def Let_def)
qed

lemma round_double_pos:
  "0 < x \<Longrightarrow>
   round_double x = of_int (round_half_even (x / power_int 2 (ulp_exponent x))) * power_int 2 (ulp_exponent x)"
  by (simp add: round_double_def Let_def)

lemma round_double_minus: "round_double (- x) = - round_double x"
  by (simp add: round_double_def Let_def)

lemma round_double_nonneg: "0 \<le> x \<Longrightarrow> 0 \<le> round_double x"
proof (cases "x = 0")
  case True
  then show ?thesis by (simp add: round_double_def)
next
  case False
  assume "0 \<le> x"
  then have x: "0 < x" using False by simp
  have "0 \<le> x / power_int 2 (ulp_exponent x)" using x by simp
  then have "(of_int 0 :: rat) \<le> x / power_int 2 (ulp_exponent x)" by simp
  then have "0 \<le> round_half_even (x / power_int 2 (ulp_exponent x))"
    by (rule round_half_even_ge)
  then show ?thesis
    unfolding round_double_pos [OF x] by simp
qed

lemma round_double_pos_le_multiple:
  assumes "0 < x" and "x \<le> of_int j * power_int 2 (ulp_exponent x)"
  shows "round_double x \<le> of_int j * power_int 2 (ulp_exponent x)"
proof -
  let ?g = "power_int 2 (ulp_exponent x) :: rat"
  have g: "0 < ?g" by simp
  have "x / ?g \<le> of_int j" using assms(2) g by (simp add: pos_divide_le_eq)
  then have "round_half_even (x / ?g) \<le> j" by (rule round_half_even_le)
  then have "(of_int (round_half_even (x / ?g)) :: rat) \<le> of_int j" by simp
  then show ?thesis
    unfolding round_double_pos [OF assms(1)] using g by (intro mult_right_mono) simp_all
qed

lemma round_double_pos_ge_multiple:
  assumes "0 < x" and "of_int j * power_int 2 (ulp_exponent x) \<le> x"
  shows "of_int j * power_int 2 (ulp_exponent x) \<le> round_double x"
proof -
  let ?g = "power_int 2 (ulp_exponent x) :: rat"
  have g: "0 < ?g" by simp
  have "of_int j \<le> x / ?g" using assms(2) g by (simp add: pos_le_divide_eq)
  then have "j \<le> round_half_even (x / ?g)" by (rule round_half_even_ge)
  then have "(of_int j :: rat) \<le> of_int (round_half_even (x / ?g))" by simp
  then show ?thesis
    unfolding round_double_pos [OF assms(1)] using g by (intro mult_right_mono) simp_all
qed

lemma int_multiple_of_ulp:
  assumes "e \<le> 0"
  shows "(of_int c :: rat) = of_int (c * 2 ^ nat (- e)) * power_int 2 e"
proof -
  have "power_int (2 :: rat) e = 1 / 2 ^ nat (- e)"
    using assms by (simp add: power_int_def inverse_eq_divide power_one_over)
  then show ?thesis by simp
qed

lemma ulp_exponent_pos_lower:
  assumes "0 < x" and "0 < ulp_exponent x"
  shows "power_int 2 (ulp_exponent x + 52) \<le> x"
proof -
  have "ulp_exponent x = binade x - 52"
    using assms(2) by (simp add: ulp_exponent_def max_def split: if_splits)
  then show ?thesis using binade_bounds(1) [OF assms(1)] by simp
qed

lemma round_double_pos_le_int:
  assumes "0 < x" and "x \<le> of_int c" and "c \<le> 2 ^ 53"
  shows "round_double x \<le> of_int c"
proof (cases "ulp_exponent x \<le> 0")
  case True
  define j where "j = c * 2 ^ nat (- ulp_exponent x)"
  have eq: "(of_int c :: rat) = of_int j * power_int 2 (ulp_exponent x)"
    unfolding j_def by (rule int_multiple_of_ulp [OF True])
  have "x \<le> of_int j * power_int 2 (ulp_exponent x)"
    using assms(2) unfolding eq .
  then have "round_double x \<le> of_int j * power_int 2 (ulp_exponent x)"
    by (rule round_double_pos_le_multiple [OF assms(1)])
  then show ?thesis unfolding eq .
next
  case False
  then have e: "0 < ulp_exponent x" by simp
  have "power_int (2 :: rat) (1 + 52) \<le> power_int 2 (ulp_exponent x + 52)"
    using e by (intro power_int_increasing) simp_all
  also have "\<dots> \<le> x" using ulp_exponent_pos_lower [OF assms(1) e] .
  finally have lo: "2 ^ 53 \<le> x" by simp
  have "(of_int c :: rat) \<le> of_int (2 ^ 53)" using assms(3) by (simp only: of_int_le_iff)
  then have "x = 2 ^ 53" using lo assms(2) by simp
  moreover have "round_double (2 ^ 53) = 2 ^ 53" by code_simp
  ultimately show ?thesis using assms(2) by simp
qed

lemma round_double_pos_ge_int:
  assumes "0 < x" and "of_int c \<le> x" and "c \<le> 2 ^ 53"
  shows "of_int c \<le> round_double x"
proof (cases "ulp_exponent x \<le> 0")
  case True
  define j where "j = c * 2 ^ nat (- ulp_exponent x)"
  have eq: "(of_int c :: rat) = of_int j * power_int 2 (ulp_exponent x)"
    unfolding j_def by (rule int_multiple_of_ulp [OF True])
  have "of_int j * power_int 2 (ulp_exponent x) \<le> x"
    using assms(2) unfolding eq .
  then have "of_int j * power_int 2 (ulp_exponent x) \<le> round_double x"
    by (rule round_double_pos_ge_multiple [OF assms(1)])
  then show ?thesis unfolding eq .
next
  case False
  then have e: "0 < ulp_exponent x" by simp
  let ?g = "power_int 2 (ulp_exponent x) :: rat"
  have "of_int (2 ^ 52) * ?g = power_int 2 (ulp_exponent x + 52)"
    using power_int_add [of "2 :: rat" "ulp_exponent x" 52] by simp
  also have "\<dots> \<le> x" using ulp_exponent_pos_lower [OF assms(1) e] .
  finally have "of_int (2 ^ 52) * ?g \<le> round_double x"
    by (rule round_double_pos_ge_multiple [OF assms(1)])
  moreover have "(2 :: rat) ^ 53 \<le> of_int (2 ^ 52) * ?g"
  proof -
    have "power_int (2 :: rat) 1 \<le> ?g" using e by (intro power_int_increasing) simp_all
    then have "of_int (2 ^ 52) * power_int (2 :: rat) 1 \<le> of_int (2 ^ 52) * ?g"
      by (intro mult_left_mono) simp_all
    then show ?thesis by simp
  qed
  moreover have "(of_int c :: rat) \<le> of_int (2 ^ 53)" using assms(3) by (simp only: of_int_le_iff)
  ultimately show ?thesis by simp
qed

lemma round_double_le_int:
  assumes "x \<le> of_int c" and "\<bar>c\<bar> \<le> 2 ^ 53"
  shows "round_double x \<le> of_int c"
proof -
  consider "0 < x" | "x = 0" | "x < 0" "0 \<le> c" | "x < 0" "c < 0" by linarith
  then show ?thesis
  proof cases
    case 1
    then show ?thesis using assms by (intro round_double_pos_le_int) simp_all
  next
    case 2
    then show ?thesis using assms by (simp add: round_double_def)
  next
    case 3
    have "0 \<le> round_double (- x)" using 3(1) by (intro round_double_nonneg) simp
    then have "round_double x \<le> 0" by (simp add: round_double_minus)
    also have "0 \<le> (of_int c :: rat)" using 3(2) by simp
    finally show ?thesis .
  next
    case 4
    have "of_int (- c) \<le> round_double (- x)"
      using 4 assms by (intro round_double_pos_ge_int) simp_all
    then show ?thesis by (simp add: round_double_minus)
  qed
qed

lemma round_double_int:
  assumes "\<bar>c\<bar> \<le> 2 ^ 53"
  shows "round_double (of_int c) = of_int c"
proof -
  have "round_double (of_int c) \<le> of_int c"
    using assms by (intro round_double_le_int) simp_all
  moreover have "round_double (- of_int c) \<le> of_int (- c)"
    using assms by (intro round_double_le_int) simp_all
  ultimately show ?thesis
    by (simp add: round_double_minus)
qed

section \<open>The error rate\<close>

lemma count_errors_le: "count_errors w \<le> length w"
  by (simp add: count_errors_def)

lemma error_rate_close:
  assumes "w \<noteq> []"
  shows "\<bar>error_rate w - 100 * of_nat (count_errors w) / of_nat (length w)\<bar> < 1 / 2 ^ 45"
proof -
  define q :: rat where "q = of_nat (count_errors w) / of_nat (length w)"
  define fq where "fq = round_double q"
  have len: "(0 :: rat) < of_nat (length w)" using assms by simp
  have q0: "0 \<le> q" by (simp add: q_def)
  have q1: "q \<le> 1"
    using count_errors_le [of w] len by (simp add: q_def)
  have "\<bar>q\<bar> < power_int 2 (0 + 1)" using q0 q1 by simp
  then have e1: "\<bar>fq - q\<bar> \<le> power_int 2 (0 - 53)"
    unfolding fq_def by (rule round_double_error_below) simp
  then have e1': "\<bar>fq - q\<bar> \<le> 1 / 2 ^ 53"
    by (simp add: power_int_minus_divide)
  have "\<bar>fq\<bar> \<le> \<bar>q\<bar> + \<bar>fq - q\<bar>" by linarith
  then have fq: "\<bar>fq\<bar> \<le> 1 + 1 / 2 ^ 53" using e1' q0 q1 by linarith
  have "\<bar>fq * 100\<bar> = \<bar>fq\<bar> * 100" by (simp add: abs_mult)
  also have "\<dots> \<le> (1 + 1 / 2 ^ 53) * 100" using fq by (intro mult_right_mono) simp_all
  also have "\<dots> < power_int 2 (6 + 1)" by simp
  finally have "\<bar>fq * 100\<bar> < power_int 2 (6 + 1)" .
  then have e2: "\<bar>round_double (fq * 100) - fq * 100\<bar> \<le> power_int 2 (6 - 53)"
    by (rule round_double_error_below) simp
  then have e2': "\<bar>round_double (fq * 100) - fq * 100\<bar> \<le> 1 / 2 ^ 47"
    by (simp add: power_int_minus_divide)
  have r: "error_rate w = round_double (fq * 100)"
    by (simp add: error_rate_def fmul_def fdiv_def fq_def q_def)
  have "fq * 100 - 100 * q = 100 * (fq - q)" by (simp add: algebra_simps)
  then have "\<bar>fq * 100 - 100 * q\<bar> = \<bar>100 * (fq - q)\<bar>" by (simp only:)
  also have "\<dots> = 100 * \<bar>fq - q\<bar>" by (simp only: abs_mult abs_numeral)
  finally have t: "\<bar>fq * 100 - 100 * q\<bar> = 100 * \<bar>fq - q\<bar>" .
  have "\<bar>error_rate w - 100 * q\<bar> \<le> \<bar>round_double (fq * 100) - fq * 100\<bar> + \<bar>fq * 100 - 100 * q\<bar>"
    unfolding r by linarith
  also have "\<dots> = \<bar>round_double (fq * 100) - fq * 100\<bar> + 100 * \<bar>fq - q\<bar>"
    by (simp only: t)
  also have "\<dots> \<le> 1 / 2 ^ 47 + 100 * (1 / 2 ^ 53)"
    using e1' e2' by (intro add_mono mult_left_mono) simp_all
  also have "\<dots> < 1 / 2 ^ 45" by simp
  finally show ?thesis by (simp add: q_def)
qed

lemma check_error_rate_short:
  "length (request_window s) < WINDOW_SIZE cfg \<Longrightarrow>
   check_error_rate cfg now s = ([CheckErrorRateCall], s, None)"
  by (simp add: check_error_rate_def)

lemma check_error_rate_full:
  "WINDOW_SIZE cfg \<le> length (request_window s) \<Longrightarrow> request_window s \<noteq> [] \<Longrightarrow>
   breach_rates (fst (check_error_rate cfg now s)) =
     (if float_gt (error_rate (request_window s)) (ERROR_THRESHOLD cfg)
      then [error_rate (request_window s)] else [])
   \<and> snd (snd (check_error_rate cfg now s)) = None"
  by (simp add: check_error_rate_def Let_def send_slack_alert_def)

lemma check_error_rate_zero:
  "WINDOW_SIZE cfg = 0 \<Longrightarrow> request_window s = [] \<Longrightarrow>
   check_error_rate cfg now s = ([CheckErrorRateCall], s, Some ZeroDivisionError)"
  by (simp add: check_error_rate_def)

text \<open>
  Claim C1, as stated, fails: the rate is computed in binary64 as \<open>(errors / len) * 100\<close>,
  and the two roundings can leave it off \<open>100 * errors / capacity\<close>. With 7 statuses of
  500 in a full window of 200 the computed rate is 3.5000000000000004, not 3.5, and with a
  threshold of 3.5 the breach is signalled although 3.5 is not above the threshold.
\<close>

theorem rounded_rate_counterexample:
  "length (replicate 7 500 @ replicate 193 (200 :: int)) = WINDOW_SIZE default_config
   \<and> count_errors (replicate 7 500 @ replicate 193 200) = 7
   \<and> error_rate (replicate 7 500 @ replicate 193 200) = 7881299347898369 / 2251799813685248
   \<and> error_rate (replicate 7 500 @ replicate 193 200) \<noteq> 100 * 7 / 200
   \<and> breach_rates (fst (check_error_rate (default_config\<lparr>ERROR_THRESHOLD := Finite (7 / 2)\<rparr>)
        1700000000 (initial\<lparr>request_window := replicate 7 500 @ replicate 193 200\<rparr>)))
      = [7881299347898369 / 2251799813685248]
   \<and> \<not> (7 / 2 :: rat) < 100 * 7 / 200"
  by code_simp

text \<open>
  Claim C1, amended. With a window shorter than the capacity \<open>check_error_rate\<close> returns
  at once, whatever the window holds: no breach, no alert, no change of state. With a
  window at a capacity of at least 1, the rate is the binary64 product by 100 of the
  binary64 quotient of the number of statuses from 500 up by the capacity, which is
  within \<open>2 ^ -45\<close> of \<open>100 * count / capacity\<close>; a breach is signalled, with this rate,
  exactly when the rate is greater than the threshold, strictly for a finite threshold.
\<close>

theorem error_rate_breach:
  "(length (request_window s) < WINDOW_SIZE cfg \<longrightarrow>
      check_error_rate cfg now s = ([CheckErrorRateCall], s, None))
   \<and> (length (request_window s) = WINDOW_SIZE cfg \<and> 0 < WINDOW_SIZE cfg \<longrightarrow>
        error_rate (request_window s)
          = round_double (round_double (of_nat (count_errors (request_window s))
                                          / of_nat (WINDOW_SIZE cfg)) * 100)
        \<and> \<bar>error_rate (request_window s)
             - 100 * of_nat (count_errors (request_window s)) / of_nat (WINDOW_SIZE cfg)\<bar>
            < 1 / 2 ^ 45
        \<and> breach_rates (fst (check_error_rate cfg now s))
          = (if float_gt (error_rate (request_window s)) (ERROR_THRESHOLD cfg)
             then [error_rate (request_window s)] else []))
   \<and> (float_gt r (Finite t) \<longleftrightarrow> t < r)"
proof -
  have full: "error_rate (request_window s)
          = round_double (round_double (of_nat (count_errors (request_window s))
                                          / of_nat (WINDOW_SIZE cfg)) * 100)
        \<and> \<bar>error_rate (request_window s)
             - 100 * of_nat (count_errors (request_window s)) / of_nat (WINDOW_SIZE cfg)\<bar>
            < 1 / 2 ^ 45
        \<and> breach_rates (fst (check_error_rate cfg now s))
          = (if float_gt (error_rate (request_window s)) (ERROR_THRESHOLD cfg)
             then [error_rate (request_window s)] else [])"
    if h: "length (request_window s) = WINDOW_SIZE cfg \<and> 0 < WINDOW_SIZE cfg"
  proof -
    have ne: "request_window s \<noteq> []" using h by auto
    have le: "WINDOW_SIZE cfg \<le> length (request_window s)" using h by simp
    have 1: "error_rate (request_window s)
          = round_double (round_double (of_nat (count_errors (request_window s))
                                          / of_nat (WINDOW_SIZE cfg)) * 100)"
      using h by (simp add: error_rate_def fmul_def fdiv_def)
    have 2: "\<bar>error_rate (request_window s)
             - 100 * of_nat (count_errors (request_window s)) / of_nat (WINDOW_SIZE cfg)\<bar>
            < 1 / 2 ^ 45"
      using error_rate_close [OF ne] h by simp
    show ?thesis
      using 1 2 check_error_rate_full [OF le ne, of now] by blast
  qed
  have short: "check_error_rate cfg now s = ([CheckErrorRateCall], s, None)"
    if "length (request_window s) < WINDOW_SIZE cfg"
    using that by (rule check_error_rate_short)
  have strict: "float_gt r (Finite t) \<longleftrightarrow> t < r" by simp
  show ?thesis
    using short full strict by blast
qed

theorem error_rate_breach_witness:
  "check_error_rate (default_config\<lparr>WINDOW_SIZE := 3\<rparr>) 1700000000
      (initial\<lparr>request_window := [500, 500]\<rparr>)
     = ([CheckErrorRateCall], initial\<lparr>request_window := [500, 500]\<rparr>, None)
   \<and> error_rate [500, 200, 200] = 2345624805922133 / 70368744177664
   \<and> \<bar>error_rate [500, 200, 200] - 100 * 1 / 3\<bar> < 1 / 2 ^ 45
   \<and> breach_rates (fst (check_error_rate (default_config\<lparr>WINDOW_SIZE := 3\<rparr>) 1700000000
        (initial\<lparr>request_window := [500, 200, 200]\<rparr>)))
      = [2345624805922133 / 70368744177664]"
proof -
  have r: "error_rate [500, 200, 200] = 2345624805922133 / 70368744177664"
    by code_simp
  have c: "count_errors [500, 200, 200] = 1"
    by code_simp
  have g: "float_gt (2345624805922133 / 70368744177664) (ERROR_THRESHOLD (default_config\<lparr>WINDOW_SIZE := 3\<rparr>))"
    by code_simp
  show ?thesis
    using error_rate_breach [of "initial\<lparr>request_window := [500, 500]\<rparr>"
        "default_config\<lparr>WINDOW_SIZE := 3\<rparr>" 1700000000 0 0]
      error_rate_breach [of "initial\<lparr>request_window := [500, 200, 200]\<rparr>"
        "default_config\<lparr>WINDOW_SIZE := 3\<rparr>" 1700000000 0 0]
      g
    by (simp add: r c)
qed

section \<open>The cooldown\<close>

lemma failover_cooldown:
  "dispatched (fst (detect_failover cfg now p s)) =
     (if failover_trigger s p \<and> cooldown_over cfg now (last_failover_alert s)
      then [''failover''] else [])"
  "last_failover_alert (snd (detect_failover cfg now p s)) =
     (if failover_trigger s p \<and> cooldown_over cfg now (last_failover_alert s)
      then now else last_failover_alert s)"
  by (simp_all add: detect_failover_def failover_trigger_def split: option.splits)

lemma error_cooldown:
  "dispatched (fst (check_error_rate cfg now s)) =
     (if breach_trigger cfg s \<and> cooldown_over cfg now (last_error_alert s)
      then [''error''] else [])"
  "last_error_alert (fst (snd (check_error_rate cfg now s))) =
     (if breach_trigger cfg s \<and> cooldown_over cfg now (last_error_alert s)
      then now else last_error_alert s)"
  by (auto simp: check_error_rate_def breach_trigger_def Let_def)

lemma cooldown_over_exact:
  "fsub now prev = now - prev \<Longrightarrow>
   cooldown_over cfg now prev \<longleftrightarrow> of_int (COOLDOWN cfg) < now - prev"
  by (simp add: cooldown_over_def)


lemma cooldown_not_over:
  assumes "\<bar>COOLDOWN cfg\<bar> \<le> 2 ^ 53" and "now - prev \<le> of_int (COOLDOWN cfg)"
  shows "\<not> cooldown_over cfg now prev"
  using round_double_le_int [OF assms(2) assms(1)]
  by (simp add: cooldown_over_def fsub_def not_less)

subsection \<open>The governor\<close>

lemma map_fst_governor [simp]: "map fst (governor cfg timer ts) = ts"
  by (induction ts arbitrary: timer) simp_all

lemma last_dispatch_append:
  "last_dispatch timer (a @ b) = last_dispatch (last_dispatch timer a) b"
  by (induction a arbitrary: timer) auto

lemma governor_append:
  "governor cfg timer (ts @ us) =
     governor cfg timer ts @ governor cfg (last_dispatch timer (governor cfg timer ts)) us"
  by (induction ts arbitrary: timer) simp_all

lemma governor_spaced:
  assumes "\<bar>COOLDOWN cfg\<bar> \<le> 2 ^ 53"
  shows "spaced (of_int (COOLDOWN cfg)) (timer # dispatch_times (governor cfg timer ts))"
proof (induction ts arbitrary: timer)
  case Nil
  then show ?case by (simp add: dispatch_times_def)
next
  case (Cons t ts)
  show ?case
  proof (cases "cooldown_over cfg t timer")
    case True
    then have "of_int (COOLDOWN cfg) < t - timer"
      using cooldown_not_over [OF assms, of t timer] by (cases "t - timer \<le> of_int (COOLDOWN cfg)") simp_all
    then show ?thesis
      using True Cons [of t] by (simp add: dispatch_times_def)
  next
    case False
    then show ?thesis
      using Cons [of timer] by (simp add: dispatch_times_def)
  qed
qed

lemma governor_next:
  "Suc i < length ts \<Longrightarrow> snd (governor cfg timer ts ! i) \<Longrightarrow>
   snd (governor cfg timer ts ! Suc i) = cooldown_over cfg (ts ! Suc i) (ts ! i)"
proof (induction ts arbitrary: timer i)
  case Nil
  then show ?case by simp
next
  case (Cons t ts)
  show ?case
  proof (cases i)
    case 0
    then have d: "cooldown_over cfg t timer" using Cons.prems(2) by (simp split: if_splits)
    obtain u us where ts: "ts = u # us" using Cons.prems(1) 0 by (cases ts) auto
    show ?thesis using 0 d ts by simp
  next
    case (Suc j)
    then have j: "Suc j < length ts" using Cons.prems(1) by simp
    show ?thesis
    proof (cases "cooldown_over cfg t timer")
      case True
      then have "snd (governor cfg t ts ! j)" using Cons.prems(2) Suc by simp
      then show ?thesis using Cons.IH [OF j, of t] True Suc by simp
    next
      case False
      then have "snd (governor cfg timer ts ! j)" using Cons.prems(2) Suc by simp
      then show ?thesis using Cons.IH [OF j, of timer] False Suc by simp
    qed
  qed
qed

subsection \<open>The alerts of one line\<close>

lemma failover_events_check [simp]: "failover_events (fst (check_error_rate cfg now s)) = []"
  by (simp add: check_error_rate_def Let_def)

lemma breach_rates_send [simp]: "breach_rates (send_slack_alert cfg a) = []"
  by (simp add: send_slack_alert_def)

lemma breach_rates_detect [simp]: "breach_rates (fst (detect_failover cfg now p s)) = []"
  by (simp add: detect_failover_def split: option.splits)

lemma breach_rates_check:
  "breach_rates (fst (check_error_rate cfg now s)) =
     (if breach_trigger cfg s then [error_rate (request_window s)] else [])"
  by (auto simp: check_error_rate_def breach_trigger_def Let_def)

lemma failover_events_trigger:
  "failover_events (fst (detect_failover cfg now p s)) = [] \<longleftrightarrow> \<not> failover_trigger s p"
  by (simp add: detect_failover_events failover_trigger_def split: option.splits)

lemma detect_failover_entry:
  "failover_entry clock (pre @ fst (detect_failover cfg (fst clock) p s) @ fst (check_error_rate cfg te s2))
     = governor cfg (last_failover_alert s)
         (map fst (failover_entry clock
            (pre @ fst (detect_failover cfg (fst clock) p s) @ fst (check_error_rate cfg te s2))))
   \<and> last_failover_alert (snd (detect_failover cfg (fst clock) p s))
     = last_dispatch (last_failover_alert s)
         (failover_entry clock
            (pre @ fst (detect_failover cfg (fst clock) p s) @ fst (check_error_rate cfg te s2)))"
  if "failover_events pre = []" "dispatched pre = []"
  using that
  by (simp add: failover_entry_def failover_events_trigger failover_cooldown error_cooldown)

lemma check_error_rate_entry:
  "error_entry clock (pre @ fst (check_error_rate cfg (snd clock) s))
     = governor cfg (last_error_alert s)
         (map fst (error_entry clock (pre @ fst (check_error_rate cfg (snd clock) s))))
   \<and> last_error_alert (fst (snd (check_error_rate cfg (snd clock) s)))
     = last_dispatch (last_error_alert s)
         (error_entry clock (pre @ fst (check_error_rate cfg (snd clock) s)))"
  if "breach_rates pre = []" "''error'' \<notin> set (dispatched pre)"
  using that
  by (simp add: error_entry_def breach_rates_check error_cooldown)

lemma error_not_dispatched_by_detector:
  "''error'' \<notin> set (dispatched (fst (detect_failover cfg now p s)))"
  by (simp add: failover_cooldown)

lemma handle_record_failover_entry:
  "failover_entry clock (fst (handle_record cfg clock pool st s))
     = governor cfg (last_failover_alert s)
         (map fst (failover_entry clock (fst (handle_record cfg clock pool st s))))
   \<and> last_failover_alert (fst (snd (handle_record cfg clock pool st s)))
     = last_dispatch (last_failover_alert s)
         (failover_entry clock (fst (handle_record cfg clock pool st s)))"
proof (cases "valid_pool pool")
  case True
  let ?s1 = "s\<lparr>request_window := deque_append (WINDOW_SIZE cfg) (request_window s) (parse_status st)\<rparr>"
  let ?pre = "[WindowAppend (parse_status st), StatusPrinted pool (parse_status st)]"
  have "failover_events ?pre = []" "dispatched ?pre = []" by simp_all
  from detect_failover_entry [OF this, of clock cfg "the pool" ?s1 "snd clock"
      "snd (detect_failover cfg (fst clock) (the pool) ?s1)"]
  show ?thesis
    using True by (simp add: handle_record_unfold Let_def check_error_rate_keeps)
next
  case False
  then show ?thesis
    by (simp add: handle_record_unfold Let_def check_error_rate_keeps failover_entry_def)
qed

lemma handle_record_error_entry:
  "error_entry clock (fst (handle_record cfg clock pool st s))
     = governor cfg (last_error_alert s)
         (map fst (error_entry clock (fst (handle_record cfg clock pool st s))))
   \<and> last_error_alert (fst (snd (handle_record cfg clock pool st s)))
     = last_dispatch (last_error_alert s)
         (error_entry clock (fst (handle_record cfg clock pool st s)))"
proof -
  let ?s1 = "s\<lparr>request_window := deque_append (WINDOW_SIZE cfg) (request_window s) (parse_status st)\<rparr>"
  let ?d = "if valid_pool pool then detect_failover cfg (fst clock) (the pool) ?s1 else ([], ?s1)"
  let ?pre = "[WindowAppend (parse_status st), StatusPrinted pool (parse_status st)] @ fst ?d"
  have a: "breach_rates ?pre = []" by simp
  have b: "''error'' \<notin> set (dispatched ?pre)"
    using error_not_dispatched_by_detector by simp
  have t: "last_error_alert (snd ?d) = last_error_alert s"
    by (simp add: detect_failover_keeps)
  from check_error_rate_entry [OF a b, of clock cfg "snd ?d"]
  show ?thesis
    unfolding t by (simp add: handle_record_unfold Let_def)
qed

lemma process_log_line_failover_entry:
  "failover_entry clock (fst (process_log_line cfg clock line s))
     = governor cfg (last_failover_alert s)
         (map fst (failover_entry clock (fst (process_log_line cfg clock line s))))
   \<and> last_failover_alert (fst (snd (process_log_line cfg clock line s)))
     = last_dispatch (last_failover_alert s)
         (failover_entry clock (fst (process_log_line cfg clock line s)))"
proof (cases "re_search LOG_PATTERN line")
  case None
  then show ?thesis by (simp add: process_log_line_def failover_entry_def)
next
  case (Some m)
  then show ?thesis
    using handle_record_failover_entry by (simp add: process_log_line_def)
qed

lemma process_log_line_error_entry:
  "error_entry clock (fst (process_log_line cfg clock line s))
     = governor cfg (last_error_alert s)
         (map fst (error_entry clock (fst (process_log_line cfg clock line s))))
   \<and> last_error_alert (fst (snd (process_log_line cfg clock line s)))
     = last_dispatch (last_error_alert s)
         (error_entry clock (fst (process_log_line cfg clock line s)))"
proof (cases "re_search LOG_PATTERN line")
  case None
  then show ?thesis by (simp add: process_log_line_def error_entry_def)
next
  case (Some m)
  then show ?thesis
    using handle_record_error_entry by (simp add: process_log_line_def)
qed

subsection \<open>The alerts of a run\<close>

lemma alert_log_governed:
  assumes line: "\<And>clock line s.
      entry clock (fst (process_log_line cfg clock line s))
        = governor cfg (timer s) (map fst (entry clock (fst (process_log_line cfg clock line s))))
      \<and> timer (fst (snd (process_log_line cfg clock line s)))
        = last_dispatch (timer s) (entry clock (fst (process_log_line cfg clock line s)))"
  shows "alert_log entry cfg input s = governor cfg (timer s) (map fst (alert_log entry cfg input s))
     \<and> timer (fst (snd (tail_log cfg input s))) = last_dispatch (timer s) (alert_log entry cfg input s)"
proof (induction input arbitrary: s)
  case Nil
  then show ?case by simp
next
  case (Cons a input)
  obtain clock ln where a: "a = (clock, ln)" by (cases a)
  obtain ev s' r where p: "process_log_line cfg clock (strip ln) s = (ev, s', r)"
    by (cases "process_log_line cfg clock (strip ln) s")
  have e: "entry clock ev = governor cfg (timer s) (map fst (entry clock ev))"
    and t: "timer s' = last_dispatch (timer s) (entry clock ev)"
    using line [of clock "strip ln" s] p by simp_all
  show ?case
  proof (cases r)
    case (Some x)
    then show ?thesis using a p e t by simp
  next
    case None
    obtain ev2 r2 where tl: "tail_log cfg input s' = (ev2, r2)" by (cases "tail_log cfg input s'")
    let ?e = "entry clock ev" and ?l = "alert_log entry cfg input s'"
    have ih1: "?l = governor cfg (timer s') (map fst ?l)"
      and ih2: "timer (fst (snd (tail_log cfg input s'))) = last_dispatch (timer s') ?l"
      using Cons.IH [of s'] by simp_all
    have "governor cfg (timer s) (map fst (?e @ ?l))
            = governor cfg (timer s) (map fst ?e)
                @ governor cfg (last_dispatch (timer s) (governor cfg (timer s) (map fst ?e))) (map fst ?l)"
      by (simp add: governor_append)
    also have "\<dots> = ?e @ governor cfg (timer s') (map fst ?l)"
      using e t by simp
    also have "\<dots> = ?e @ ?l" using ih1 by simp
    finally have 1: "?e @ ?l = governor cfg (timer s) (map fst (?e @ ?l))" by simp
    have 2: "timer (fst r2) = last_dispatch (timer s) (?e @ ?l)"
      using ih2 t tl by (simp add: last_dispatch_append)
    show ?thesis
      using a p None tl 1 2 by simp
  qed
qed

lemma failover_log_governed:
  "failover_log cfg input s
     = governor cfg (last_failover_alert s) (map fst (failover_log cfg input s))
   \<and> last_failover_alert (fst (snd (tail_log cfg input s)))
     = last_dispatch (last_failover_alert s) (failover_log cfg input s)"
  unfolding failover_log_def
  by (rule alert_log_governed) (rule process_log_line_failover_entry)

lemma error_log_governed:
  "error_log cfg input s
     = governor cfg (last_error_alert s) (map fst (error_log cfg input s))
   \<and> last_error_alert (fst (snd (tail_log cfg input s)))
     = last_dispatch (last_error_alert s) (error_log cfg input s)"
  unfolding error_log_def
  by (rule alert_log_governed) (rule process_log_line_error_entry)

lemma governed_spaced:
  assumes "l = governor cfg timer (map fst l)" and "\<bar>COOLDOWN cfg\<bar> \<le> 2 ^ 53"
  shows "spaced (of_int (COOLDOWN cfg)) (timer # dispatch_times l)"
proof -
  have "spaced (of_int (COOLDOWN cfg)) (timer # dispatch_times (governor cfg timer (map fst l)))"
    using assms(2) by (rule governor_spaced)
  then show ?thesis using assms(1) by simp
qed

lemma governed_next:
  assumes "l = governor cfg timer (map fst l)" and "Suc i < length l" and "snd (l ! i)"
  shows "snd (l ! Suc i) = cooldown_over cfg (fst (l ! Suc i)) (fst (l ! i))"
proof -
  let ?ts = "map fst l"
  have len: "Suc i < length ?ts" using assms(2) by simp
  have "snd (governor cfg timer ?ts ! i)" using assms(1,3) by simp
  then have "snd (governor cfg timer ?ts ! Suc i) = cooldown_over cfg (?ts ! Suc i) (?ts ! i)"
    using len by (rule governor_next [rotated])
  moreover have "?ts ! Suc i = fst (l ! Suc i)" "?ts ! i = fst (l ! i)"
    using assms(2) by simp_all
  ultimately show ?thesis using assms(1) by simp
qed

lemma governed_next_dispatched:
  assumes "l = governor cfg timer (map fst l)"
    and "Suc i < length l \<and> snd (l ! i)
         \<and> fsub (fst (l ! Suc i)) (fst (l ! i)) = fst (l ! Suc i) - fst (l ! i)
         \<and> of_int (COOLDOWN cfg) < fst (l ! Suc i) - fst (l ! i)"
  shows "snd (l ! Suc i)"
  using governed_next [OF assms(1), of i] assms(2) cooldown_over_exact [of "fst (l ! Suc i)" "fst (l ! i)" cfg]
  by simp

text \<open>
  Claim C3, as stated, fails: of two triggers separated by more than the cooldown, the
  first is not dispatched when it comes within the cooldown of an earlier alert of its
  category. Here the pool changes at 1700000010 (alert), at 1700000100 (90 seconds after
  the alert: no alert) and at 1700000500 (alert): the last two changes are 400 seconds
  apart, more than the cooldown of 300, and only the second of them is dispatched.
\<close>

theorem suppressed_trigger_counterexample:
  "failover_events (fst (tail_log default_config
      [((1700000000, 1700000000), ''pool=blue release=v1 upstream_status=200''),
       ((1700000010, 1700000010), ''pool=green release=v1 upstream_status=200''),
       ((1700000100, 1700000100), ''pool=blue release=v1 upstream_status=200''),
       ((1700000500, 1700000500), ''pool=green release=v1 upstream_status=200'')] initial))
     = [(''blue'', ''green''), (''green'', ''blue''), (''blue'', ''green'')]
   \<and> slack_posts (fst (tail_log default_config
      [((1700000000, 1700000000), ''pool=blue release=v1 upstream_status=200''),
       ((1700000010, 1700000010), ''pool=green release=v1 upstream_status=200''),
       ((1700000100, 1700000100), ''pool=blue release=v1 upstream_status=200''),
       ((1700000500, 1700000500), ''pool=green release=v1 upstream_status=200'')] initial))
     = [FailoverAlert ''blue'' ''green'', FailoverAlert ''blue'' ''green'']
   \<and> dispatched (fst (tail_log default_config
      [((1700000000, 1700000000), ''pool=blue release=v1 upstream_status=200''),
       ((1700000010, 1700000010), ''pool=green release=v1 upstream_status=200''),
       ((1700000100, 1700000100), ''pool=blue release=v1 upstream_status=200'')] initial))
     = [''failover'']
   \<and> of_int (COOLDOWN default_config) < (1700000500 - 1700000100 :: rat)"
  by code_simp

text \<open>
  Claim C3, amended. Each category has its own timer, \<open>last_failover_alert\<close> or
  \<open>last_error_alert\<close>, which starts at 0 and is not touched by the other category. In
  every call and along every run of \<open>tail_log\<close>, a trigger of a category is dispatched
  exactly when the binary64 difference between its time and the timer is strictly greater
  than the cooldown, and the timer is set, to the time of the trigger, exactly when the
  trigger is dispatched: the log of the category is the governor's, and the timer after
  the run is the time of the last dispatched trigger. Hence each dispatched trigger comes
  strictly more than the cooldown after the dispatched trigger before it, and the first
  after the timer's value at the start (for a cooldown of at most \<open>2 ^ 53\<close> seconds in
  absolute value); and when a trigger is dispatched, the next trigger of its category is
  dispatched too if it comes strictly more than the cooldown later (with an exact
  subtraction of the two clock readings). A trigger that is not dispatched leaves the timer
  alone, so nothing is said of the trigger after it but by the timer.
\<close>

theorem alert_cooldown:
  "dispatched (fst (detect_failover cfg now p s)) =
     (if failover_trigger s p \<and> cooldown_over cfg now (last_failover_alert s)
      then [''failover''] else [])
   \<and> last_failover_alert (snd (detect_failover cfg now p s)) =
     (if failover_trigger s p \<and> cooldown_over cfg now (last_failover_alert s)
      then now else last_failover_alert s)
   \<and> last_error_alert (snd (detect_failover cfg now p s)) = last_error_alert s
   \<and> dispatched (fst (check_error_rate cfg now s)) =
     (if breach_trigger cfg s \<and> cooldown_over cfg now (last_error_alert s)
      then [''error''] else [])
   \<and> last_error_alert (fst (snd (check_error_rate cfg now s))) =
     (if breach_trigger cfg s \<and> cooldown_over cfg now (last_error_alert s)
      then now else last_error_alert s)
   \<and> last_failover_alert (fst (snd (check_error_rate cfg now s))) = last_failover_alert s
   \<and> (\<bar>COOLDOWN cfg\<bar> \<le> 2 ^ 53 \<and> now - prev \<le> of_int (COOLDOWN cfg) \<longrightarrow>
        \<not> cooldown_over cfg now prev)
   \<and> (fsub now prev = now - prev \<and> of_int (COOLDOWN cfg) < now - prev \<longrightarrow>
        cooldown_over cfg now prev)
   \<and> failover_log cfg input s
        = governor cfg (last_failover_alert s) (map fst (failover_log cfg input s))
   \<and> last_failover_alert (fst (snd (tail_log cfg input s)))
        = last_dispatch (last_failover_alert s) (failover_log cfg input s)
   \<and> error_log cfg input s
        = governor cfg (last_error_alert s) (map fst (error_log cfg input s))
   \<and> last_error_alert (fst (snd (tail_log cfg input s)))
        = last_dispatch (last_error_alert s) (error_log cfg input s)
   \<and> (\<bar>COOLDOWN cfg\<bar> \<le> 2 ^ 53 \<longrightarrow>
        spaced (of_int (COOLDOWN cfg))
          (last_failover_alert s # dispatch_times (failover_log cfg input s))
        \<and> spaced (of_int (COOLDOWN cfg))
          (last_error_alert s # dispatch_times (error_log cfg input s)))
   \<and> (Suc i < length (failover_log cfg input s) \<and> snd (failover_log cfg input s ! i)
        \<and> fsub (fst (failover_log cfg input s ! Suc i)) (fst (failover_log cfg input s ! i))
            = fst (failover_log cfg input s ! Suc i) - fst (failover_log cfg input s ! i)
        \<and> of_int (COOLDOWN cfg)
            < fst (failover_log cfg input s ! Suc i) - fst (failover_log cfg input s ! i) \<longrightarrow>
        snd (failover_log cfg input s ! Suc i))
   \<and> (Suc j < length (error_log cfg input s) \<and> snd (error_log cfg input s ! j)
        \<and> fsub (fst (error_log cfg input s ! Suc j)) (fst (error_log cfg input s ! j))
            = fst (error_log cfg input s ! Suc j) - fst (error_log cfg input s ! j)
        \<and> of_int (COOLDOWN cfg)
            < fst (error_log cfg input s ! Suc j) - fst (error_log cfg input s ! j) \<longrightarrow>
        snd (error_log cfg input s ! Suc j))"
proof -
  note f = failover_log_governed [of cfg input s] and e = error_log_governed [of cfg input s]
  have call: "dispatched (fst (detect_failover cfg now p s)) =
     (if failover_trigger s p \<and> cooldown_over cfg now (last_failover_alert s)
      then [''failover''] else [])
   \<and> last_failover_alert (snd (detect_failover cfg now p s)) =
     (if failover_trigger s p \<and> cooldown_over cfg now (last_failover_alert s)
      then now else last_failover_alert s)
   \<and> last_error_alert (snd (detect_failover cfg now p s)) = last_error_alert s
   \<and> dispatched (fst (check_error_rate cfg now s)) =
     (if breach_trigger cfg s \<and> cooldown_over cfg now (last_error_alert s)
      then [''error''] else [])
   \<and> last_error_alert (fst (snd (check_error_rate cfg now s))) =
     (if breach_trigger cfg s \<and> cooldown_over cfg now (last_error_alert s)
      then now else last_error_alert s)
   \<and> last_failover_alert (fst (snd (check_error_rate cfg now s))) = last_failover_alert s
   \<and> (\<bar>COOLDOWN cfg\<bar> \<le> 2 ^ 53 \<and> now - prev \<le> of_int (COOLDOWN cfg) \<longrightarrow>
        \<not> cooldown_over cfg now prev)
   \<and> (fsub now prev = now - prev \<and> of_int (COOLDOWN cfg) < now - prev \<longrightarrow>
        cooldown_over cfg now prev)"
    using cooldown_not_over [of cfg now prev] cooldown_over_exact [of now prev cfg]
    by (simp add: failover_cooldown error_cooldown check_error_rate_keeps detect_failover_keeps)
  have sp: "\<bar>COOLDOWN cfg\<bar> \<le> 2 ^ 53 \<longrightarrow>
        spaced (of_int (COOLDOWN cfg))
          (last_failover_alert s # dispatch_times (failover_log cfg input s))
        \<and> spaced (of_int (COOLDOWN cfg))
          (last_error_alert s # dispatch_times (error_log cfg input s))"
    using governed_spaced [OF conjunct1 [OF f]] governed_spaced [OF conjunct1 [OF e]] by blast
  have nf: "Suc i < length (failover_log cfg input s) \<and> snd (failover_log cfg input s ! i)
        \<and> fsub (fst (failover_log cfg input s ! Suc i)) (fst (failover_log cfg input s ! i))
            = fst (failover_log cfg input s ! Suc i) - fst (failover_log cfg input s ! i)
        \<and> of_int (COOLDOWN cfg)
            < fst (failover_log cfg input s ! Suc i) - fst (failover_log cfg input s ! i) \<longrightarrow>
        snd (failover_log cfg input s ! Suc i)"
    using governed_next_dispatched [OF conjunct1 [OF f], of i] by blast
  have ne: "Suc j < length (error_log cfg input s) \<and> snd (error_log cfg input s ! j)
        \<and> fsub (fst (error_log cfg input s ! Suc j)) (fst (error_log cfg input s ! j))
            = fst (error_log cfg input s ! Suc j) - fst (error_log cfg input s ! j)
        \<and> of_int (COOLDOWN cfg)
            < fst (error_log cfg input s ! Suc j) - fst (error_log cfg input s ! j) \<longrightarrow>
        snd (error_log cfg input s ! Suc j)"
    using governed_next_dispatched [OF conjunct1 [OF e], of j] by blast
  show ?thesis
    using call f e sp nf ne by blast
qed

theorem alert_cooldown_witness:
  "dispatched (fst (detect_failover (default_config\<lparr>WINDOW_SIZE := 3\<rparr>) 1700000100 ''blue''
      \<lparr>last_pool = Some ''green'', last_failover_alert = 1700000010, last_error_alert = 0,
       request_window = [500, 500, 500]\<rparr>)) = []
   \<and> last_failover_alert (snd (detect_failover (default_config\<lparr>WINDOW_SIZE := 3\<rparr>) 1700000100
      ''blue''
      \<lparr>last_pool = Some ''green'', last_failover_alert = 1700000010, last_error_alert = 0,
       request_window = [500, 500, 500]\<rparr>)) = 1700000010
   \<and> dispatched (fst (detect_failover (default_config\<lparr>WINDOW_SIZE := 3\<rparr>) 1700000500 ''blue''
      \<lparr>last_pool = Some ''green'', last_failover_alert = 1700000010, last_error_alert = 0,
       request_window = [500, 500, 500]\<rparr>)) = [''failover'']
   \<and> last_failover_alert (snd (detect_failover (default_config\<lparr>WINDOW_SIZE := 3\<rparr>) 1700000500
      ''blue''
      \<lparr>last_pool = Some ''green'', last_failover_alert = 1700000010, last_error_alert = 0,
       request_window = [500, 500, 500]\<rparr>)) = 1700000500
   \<and> dispatched (fst (check_error_rate (default_config\<lparr>WINDOW_SIZE := 3\<rparr>) 1700000500
      \<lparr>last_pool = Some ''green'', last_failover_alert = 1700000010, last_error_alert = 0,
       request_window = [500, 500, 500]\<rparr>)) = [''error'']
   \<and> last_error_alert (fst (snd (check_error_rate (default_config\<lparr>WINDOW_SIZE := 3\<rparr>) 1700000500
      \<lparr>last_pool = Some ''green'', last_failover_alert = 1700000010, last_error_alert = 0,
       request_window = [500, 500, 500]\<rparr>))) = 1700000500
   \<and> last_failover_alert (fst (snd (check_error_rate (default_config\<lparr>WINDOW_SIZE := 3\<rparr>)
      1700000500
      \<lparr>last_pool = Some ''green'', last_failover_alert = 1700000010, last_error_alert = 0,
       request_window = [500, 500, 500]\<rparr>))) = 1700000010
   \<and> failover_log (default_config\<lparr>WINDOW_SIZE := 1\<rparr>)
        [((1700000000, 1700000001), ''pool=blue release=v1 upstream_status=500''),
         ((1700000010, 1700000011), ''pool=green release=v1 upstream_status=500''),
         ((1700000400, 1700000401), ''pool=blue release=v1 upstream_status=500''),
         ((1700000800, 1700000801), ''pool=blue release=v1 upstream_status=500'')] initial
       = [(1700000010, True), (1700000400, True)]
   \<and> error_log (default_config\<lparr>WINDOW_SIZE := 1\<rparr>)
        [((1700000000, 1700000001), ''pool=blue release=v1 upstream_status=500''),
         ((1700000010, 1700000011), ''pool=green release=v1 upstream_status=500''),
         ((1700000400, 1700000401), ''pool=blue release=v1 upstream_status=500''),
         ((1700000800, 1700000801), ''pool=blue release=v1 upstream_status=500'')] initial
       = [(1700000001, True), (1700000011, False), (1700000401, True), (1700000801, True)]
   \<and> last_failover_alert (fst (snd (tail_log (default_config\<lparr>WINDOW_SIZE := 1\<rparr>)
        [((1700000000, 1700000001), ''pool=blue release=v1 upstream_status=500''),
         ((1700000010, 1700000011), ''pool=green release=v1 upstream_status=500''),
         ((1700000400, 1700000401), ''pool=blue release=v1 upstream_status=500''),
         ((1700000800, 1700000801), ''pool=blue release=v1 upstream_status=500'')] initial)))
       = 1700000400
   \<and> last_error_alert (fst (snd (tail_log (default_config\<lparr>WINDOW_SIZE := 1\<rparr>)
        [((1700000000, 1700000001), ''pool=blue release=v1 upstream_status=500''),
         ((1700000010, 1700000011), ''pool=green release=v1 upstream_status=500''),
         ((1700000400, 1700000401), ''pool=blue release=v1 upstream_status=500''),
         ((1700000800, 1700000801), ''pool=blue release=v1 upstream_status=500'')] initial)))
       = 1700000801
   \<and> spaced 300 [0, 1700000010, 1700000400]
   \<and> spaced 300 [0, 1700000001, 1700000401, 1700000801]"
proof -
  let ?cfg = "default_config\<lparr>WINDOW_SIZE := 3\<rparr>"
  let ?s = "\<lparr>last_pool = Some ''green'', last_failover_alert = 1700000010, last_error_alert = 0,
       request_window = [500, 500, 500]\<rparr>"
  let ?run = "default_config\<lparr>WINDOW_SIZE := 1\<rparr>"
  let ?input = "[((1700000000, 1700000001), ''pool=blue release=v1 upstream_status=500''),
         ((1700000010, 1700000011), ''pool=green release=v1 upstream_status=500''),
         ((1700000400, 1700000401), ''pool=blue release=v1 upstream_status=500''),
         ((1700000800, 1700000801), ''pool=blue release=v1 upstream_status=500'')]"
  have cd: "COOLDOWN ?cfg = 300" "COOLDOWN ?run = 300" by (simp_all add: default_config_def)
  have ft: "failover_trigger ?s ''blue''" by code_simp
  have bt: "breach_trigger ?cfg ?s" by code_simp
  have e1: "fsub 1700000500 1700000010 = 1700000500 - 1700000010" by code_simp
  have e2: "fsub 1700000500 0 = 1700000500 - 0" by code_simp
  have e3: "fsub 1700000400 1700000010 = 1700000400 - 1700000010" by code_simp
  have e4: "fsub 1700000801 1700000401 = 1700000801 - 1700000401" by code_simp
  have fl: "failover_log ?run ?input initial = [(1700000010, True), (1700000400, True)]"
    by code_simp
  have el: "error_log ?run ?input initial
      = [(1700000001, True), (1700000011, False), (1700000401, True), (1700000801, True)]"
    by code_simp
  have t0: "last_failover_alert initial = 0" "last_error_alert initial = 0"
    by (simp_all add: initial_def)
  have a: "\<not> cooldown_over ?cfg 1700000100 1700000010"
    using alert_cooldown [of ?cfg 1700000100 "''blue''" ?s 1700000010] cd by simp
  have b: "cooldown_over ?cfg 1700000500 1700000010"
    using alert_cooldown [of ?cfg 1700000500 "''blue''" ?s 1700000010] cd e1 by simp
  have c: "cooldown_over ?cfg 1700000500 0"
    using alert_cooldown [of ?cfg 1700000500 "''blue''" ?s 0] cd e2 by simp
  have call: "dispatched (fst (detect_failover ?cfg 1700000100 ''blue'' ?s)) = []
      \<and> last_failover_alert (snd (detect_failover ?cfg 1700000100 ''blue'' ?s)) = 1700000010
      \<and> dispatched (fst (detect_failover ?cfg 1700000500 ''blue'' ?s)) = [''failover'']
      \<and> last_failover_alert (snd (detect_failover ?cfg 1700000500 ''blue'' ?s)) = 1700000500
      \<and> dispatched (fst (check_error_rate ?cfg 1700000500 ?s)) = [''error'']
      \<and> last_error_alert (fst (snd (check_error_rate ?cfg 1700000500 ?s))) = 1700000500
      \<and> last_failover_alert (fst (snd (check_error_rate ?cfg 1700000500 ?s))) = 1700000010"
    using alert_cooldown [of ?cfg 1700000100 "''blue''" ?s 1700000010]
      alert_cooldown [of ?cfg 1700000500 "''blue''" ?s 1700000010]
      a b c ft bt
    by simp
  note r = alert_cooldown [where cfg = ?run and input = ?input and s = initial and i = 0 and j = 2]
  have "last_failover_alert (fst (snd (tail_log ?run ?input initial)))
      = last_dispatch (last_failover_alert initial) (failover_log ?run ?input initial)"
    using r by blast
  then have 1: "last_failover_alert (fst (snd (tail_log ?run ?input initial))) = 1700000400"
    unfolding fl t0 by (simp only: last_dispatch.simps if_True)
  have "last_error_alert (fst (snd (tail_log ?run ?input initial)))
      = last_dispatch (last_error_alert initial) (error_log ?run ?input initial)"
    using r by blast
  then have 2: "last_error_alert (fst (snd (tail_log ?run ?input initial))) = 1700000801"
    unfolding el t0 by (simp only: last_dispatch.simps if_True if_False)
  have "\<bar>COOLDOWN ?run\<bar> \<le> 2 ^ 53" unfolding cd by simp
  then have "spaced (of_int (COOLDOWN ?run))
          (last_failover_alert initial # dispatch_times (failover_log ?run ?input initial))
        \<and> spaced (of_int (COOLDOWN ?run))
          (last_error_alert initial # dispatch_times (error_log ?run ?input initial))"
    using r by blast
  then have 3: "spaced 300 [0, 1700000010, 1700000400]
      \<and> spaced 300 [0, 1700000001, 1700000401, 1700000801]"
    unfolding fl el t0 cd by (simp add: dispatch_times_def)
  have "Suc 0 < length (failover_log ?run ?input initial) \<and> snd (failover_log ?run ?input initial ! 0)
        \<and> fsub (fst (failover_log ?run ?input initial ! Suc 0)) (fst (failover_log ?run ?input initial ! 0))
            = fst (failover_log ?run ?input initial ! Suc 0) - fst (failover_log ?run ?input initial ! 0)
        \<and> of_int (COOLDOWN ?run)
            < fst (failover_log ?run ?input initial ! Suc 0) - fst (failover_log ?run ?input initial ! 0)"
    unfolding fl cd using e3 by simp
  then have 4: "snd (failover_log ?run ?input initial ! Suc 0)"
    using r by blast
  have "Suc 2 < length (error_log ?run ?input initial) \<and> snd (error_log ?run ?input initial ! 2)
        \<and> fsub (fst (error_log ?run ?input initial ! Suc 2)) (fst (error_log ?run ?input initial ! 2))
            = fst (error_log ?run ?input initial ! Suc 2) - fst (error_log ?run ?input initial ! 2)
        \<and> of_int (COOLDOWN ?run)
            < fst (error_log ?run ?input initial ! Suc 2) - fst (error_log ?run ?input initial ! 2)"
    unfolding el cd using e4 by simp
  then have 5: "snd (error_log ?run ?input initial ! Suc 2)"
    using r by blast
  show ?thesis
    using call 1 2 3 4 5 fl el by blast
qed

section \<open>Dropped alerts\<close>

lemma send_slack_alert_dropped:
  "SLACK_WEBHOOK cfg = [] \<or> MAINTENANCE_MODE cfg \<Longrightarrow>
   send_slack_alert cfg a = map drop_post (send_slack_alert cfg' a)"
  by (auto simp: send_slack_alert_def)

lemma detect_failover_dropped:
  assumes "SLACK_WEBHOOK cfg = [] \<or> MAINTENANCE_MODE cfg" and "COOLDOWN cfg' = COOLDOWN cfg"
  shows "detect_failover cfg now p s =
           (map drop_post (fst (detect_failover cfg' now p s)), snd (detect_failover cfg' now p s))"
  using assms send_slack_alert_dropped [OF assms(1), of _ cfg']
  by (simp add: detect_failover_def cooldown_over_def split: option.splits)

lemma check_error_rate_dropped:
  assumes "SLACK_WEBHOOK cfg = [] \<or> MAINTENANCE_MODE cfg" and "COOLDOWN cfg' = COOLDOWN cfg"
    and "WINDOW_SIZE cfg' = WINDOW_SIZE cfg" and "ERROR_THRESHOLD cfg' = ERROR_THRESHOLD cfg"
  shows "check_error_rate cfg now s =
           (map drop_post (fst (check_error_rate cfg' now s)), snd (check_error_rate cfg' now s))"
  using assms send_slack_alert_dropped [OF assms(1), of _ cfg']
  by (simp add: check_error_rate_def cooldown_over_def Let_def)

lemma handle_record_dropped:
  assumes "SLACK_WEBHOOK cfg = [] \<or> MAINTENANCE_MODE cfg" and "COOLDOWN cfg' = COOLDOWN cfg"
    and "WINDOW_SIZE cfg' = WINDOW_SIZE cfg" and "ERROR_THRESHOLD cfg' = ERROR_THRESHOLD cfg"
  shows "handle_record cfg clock pool st s =
           (map drop_post (fst (handle_record cfg' clock pool st s)),
            snd (handle_record cfg' clock pool st s))"
  unfolding handle_record_unfold Let_def
  using detect_failover_dropped [OF assms(1,2)] check_error_rate_dropped [OF assms]
  by (simp add: assms(3))

lemma process_log_line_dropped:
  assumes "SLACK_WEBHOOK cfg = [] \<or> MAINTENANCE_MODE cfg" and "COOLDOWN cfg' = COOLDOWN cfg"
    and "WINDOW_SIZE cfg' = WINDOW_SIZE cfg" and "ERROR_THRESHOLD cfg' = ERROR_THRESHOLD cfg"
  shows "process_log_line cfg clock line s =
           (map drop_post (fst (process_log_line cfg' clock line s)),
            snd (process_log_line cfg' clock line s))"
  using handle_record_dropped [OF assms]
  by (simp add: process_log_line_def split: option.splits)

lemma tail_log_dropped:
  assumes "SLACK_WEBHOOK cfg = [] \<or> MAINTENANCE_MODE cfg" and "COOLDOWN cfg' = COOLDOWN cfg"
    and "WINDOW_SIZE cfg' = WINDOW_SIZE cfg" and "ERROR_THRESHOLD cfg' = ERROR_THRESHOLD cfg"
  shows "tail_log cfg input s =
           (map drop_post (fst (tail_log cfg' input s)), snd (tail_log cfg' input s))"
proof (induction input arbitrary: s)
  case Nil
  then show ?case by simp
next
  case (Cons a input)
  obtain clock line where a: "a = (clock, line)" by (cases a)
  obtain ev s' r where p: "process_log_line cfg' clock (strip line) s = (ev, s', r)"
    by (cases "process_log_line cfg' clock (strip line) s")
  have q: "process_log_line cfg clock (strip line) s = (map drop_post ev, s', r)"
    using process_log_line_dropped [OF assms, of clock "strip line" s] p by simp
  show ?case
  proof (cases r)
    case None
    obtain ev2 r2 where t: "tail_log cfg' input s' = (ev2, r2)" by (cases "tail_log cfg' input s'")
    then have "tail_log cfg input s' = (map drop_post ev2, r2)"
      using Cons.IH [of s'] by simp
    then show ?thesis using a p q None t by simp
  next
    case (Some e)
    then show ?thesis using a p q by simp
  qed
qed

lemma slack_posts_drop_post [simp]: "slack_posts (map drop_post tr) = []"
proof (induction tr)
  case Nil
  then show ?case by simp
next
  case (Cons e tr)
  then show ?case by (cases e) simp_all
qed

lemma send_slack_alert_off:
  "SLACK_WEBHOOK cfg = [] \<or> MAINTENANCE_MODE cfg \<Longrightarrow>
   send_slack_alert cfg a = [SuppressedPrinted (alert_type a)]"
  by (auto simp: send_slack_alert_def)

text \<open>
  Claim C8. With an empty webhook URL or in maintenance mode \<open>send_slack_alert\<close> only
  prints that the alert is suppressed, and nothing is posted in any run. The cooldown
  timestamp is updated all the same: a breach whose cooldown is over sets
  \<open>last_error_alert\<close> to the time of the trigger, a failover whose cooldown is over sets
  \<open>last_failover_alert\<close> to the time of the trigger, and after a run of \<open>tail_log\<close> each
  timer is the time of the last trigger of its category that passed the cooldown. The run
  is the run with any other setting of the webhook and of the maintenance mode, in
  particular one that posts, but for each post replaced by the line that reports the
  suppressed alert: the state, hence both cooldown timestamps, is the same.
\<close>

theorem dropped_alerts_update_cooldown:
  assumes "SLACK_WEBHOOK cfg = [] \<or> MAINTENANCE_MODE cfg"
  shows "send_slack_alert cfg a = [SuppressedPrinted (alert_type a)]
     \<and> (breach_trigger cfg s \<and> cooldown_over cfg now (last_error_alert s) \<longrightarrow>
          check_error_rate cfg now s
            = ([CheckErrorRateCall, BreachEvent (error_rate (request_window s)),
                SuppressedPrinted ''error''],
               s\<lparr>last_error_alert := now\<rparr>, None))
     \<and> (last_pool s = Some old \<and> old \<noteq> p \<and> cooldown_over cfg now (last_failover_alert s) \<longrightarrow>
          detect_failover cfg now p s
            = ([DetectFailoverCall p, FailoverEvent old p, SuppressedPrinted ''failover'',
                FailoverPrinted old p],
               s\<lparr>last_failover_alert := now, last_pool := Some p\<rparr>))
     \<and> slack_posts (fst (process_log_line cfg clock line s)) = []
     \<and> process_log_line cfg clock line s =
         (map drop_post
            (fst (process_log_line (cfg\<lparr>SLACK_WEBHOOK := url, MAINTENANCE_MODE := mm\<rparr>) clock line s)),
          snd (process_log_line (cfg\<lparr>SLACK_WEBHOOK := url, MAINTENANCE_MODE := mm\<rparr>) clock line s))
     \<and> slack_posts (fst (tail_log cfg input s)) = []
     \<and> tail_log cfg input s =
         (map drop_post
            (fst (tail_log (cfg\<lparr>SLACK_WEBHOOK := url, MAINTENANCE_MODE := mm\<rparr>) input s)),
          snd (tail_log (cfg\<lparr>SLACK_WEBHOOK := url, MAINTENANCE_MODE := mm\<rparr>) input s))
     \<and> last_failover_alert (fst (snd (tail_log cfg input s)))
          = last_dispatch (last_failover_alert s) (failover_log cfg input s)
     \<and> last_error_alert (fst (snd (tail_log cfg input s)))
          = last_dispatch (last_error_alert s) (error_log cfg input s)"
proof -
  let ?cfg' = "cfg\<lparr>SLACK_WEBHOOK := url, MAINTENANCE_MODE := mm\<rparr>"
  have off: "send_slack_alert cfg a = [SuppressedPrinted (alert_type a)]" for a
    using assms by (rule send_slack_alert_off)
  have c: "check_error_rate cfg now s
            = ([CheckErrorRateCall, BreachEvent (error_rate (request_window s)),
                SuppressedPrinted ''error''],
               s\<lparr>last_error_alert := now\<rparr>, None)"
    if "breach_trigger cfg s \<and> cooldown_over cfg now (last_error_alert s)"
    using that by (auto simp: check_error_rate_def breach_trigger_def Let_def off)
  have d: "detect_failover cfg now p s
            = ([DetectFailoverCall p, FailoverEvent old p, SuppressedPrinted ''failover'',
                FailoverPrinted old p],
               s\<lparr>last_failover_alert := now, last_pool := Some p\<rparr>)"
    if "last_pool s = Some old \<and> old \<noteq> p \<and> cooldown_over cfg now (last_failover_alert s)"
    using that by (auto simp: detect_failover_def off)
  have p: "process_log_line cfg clock line s =
      (map drop_post (fst (process_log_line ?cfg' clock line s)), snd (process_log_line ?cfg' clock line s))"
    by (rule process_log_line_dropped [OF assms]) simp_all
  have t: "tail_log cfg input s =
      (map drop_post (fst (tail_log ?cfg' input s)), snd (tail_log ?cfg' input s))"
    by (rule tail_log_dropped [OF assms]) simp_all
  have np: "slack_posts (fst (process_log_line cfg clock line s)) = []"
    by (subst p) simp
  have nt: "slack_posts (fst (tail_log cfg input s)) = []"
    by (subst t) simp
  note f = conjunct2 [OF failover_log_governed [of cfg input s]]
    and e = conjunct2 [OF error_log_governed [of cfg input s]]
  show ?thesis
    using off [of a] c d np p nt t f e by blast
qed

theorem dropped_alerts_update_cooldown_witness:
  "check_error_rate (default_config\<lparr>SLACK_WEBHOOK := [], WINDOW_SIZE := 1\<rparr>) 1700000001
      (initial\<lparr>request_window := [500]\<rparr>)
     = ([CheckErrorRateCall, BreachEvent 100, SuppressedPrinted ''error''],
        initial\<lparr>request_window := [500], last_error_alert := 1700000001\<rparr>, None)
   \<and> detect_failover (default_config\<lparr>MAINTENANCE_MODE := True\<rparr>) 1700000010 ''green''
      (initial\<lparr>last_pool := Some ''blue''\<rparr>)
     = ([DetectFailoverCall ''green'', FailoverEvent ''blue'' ''green'',
         SuppressedPrinted ''failover'', FailoverPrinted ''blue'' ''green''],
        initial\<lparr>last_pool := Some ''green'', last_failover_alert := 1700000010\<rparr>)
   \<and> slack_posts (fst (tail_log (default_config\<lparr>SLACK_WEBHOOK := [], WINDOW_SIZE := 1\<rparr>)
        [((1700000000, 1700000001), ''pool=blue release=v1 upstream_status=500''),
         ((1700000010, 1700000011), ''pool=green release=v1 upstream_status=500''),
         ((1700000400, 1700000401), ''pool=blue release=v1 upstream_status=500'')] initial)) = []
   \<and> snd (tail_log (default_config\<lparr>SLACK_WEBHOOK := [], WINDOW_SIZE := 1\<rparr>)
        [((1700000000, 1700000001), ''pool=blue release=v1 upstream_status=500''),
         ((1700000010, 1700000011), ''pool=green release=v1 upstream_status=500''),
         ((1700000400, 1700000401), ''pool=blue release=v1 upstream_status=500'')] initial)
     = snd (tail_log (default_config\<lparr>WINDOW_SIZE := 1\<rparr>)
        [((1700000000, 1700000001), ''pool=blue release=v1 upstream_status=500''),
         ((1700000010, 1700000011), ''pool=green release=v1 upstream_status=500''),
         ((1700000400, 1700000401), ''pool=blue release=v1 upstream_status=500'')] initial)
   \<and> last_failover_alert (fst (snd (tail_log (default_config\<lparr>SLACK_WEBHOOK := [], WINDOW_SIZE := 1\<rparr>)
        [((1700000000, 1700000001), ''pool=blue release=v1 upstream_status=500''),
         ((1700000010, 1700000011), ''pool=green release=v1 upstream_status=500''),
         ((1700000400, 1700000401), ''pool=blue release=v1 upstream_status=500'')] initial)))
     = 1700000400
   \<and> last_error_alert (fst (snd (tail_log (default_config\<lparr>SLACK_WEBHOOK := [], WINDOW_SIZE := 1\<rparr>)
        [((1700000000, 1700000001), ''pool=blue release=v1 upstream_status=500''),
         ((1700000010, 1700000011), ''pool=green release=v1 upstream_status=500''),
         ((1700000400, 1700000401), ''pool=blue release=v1 upstream_status=500'')] initial)))
     = 1700000401
   \<and> last_failover_alert (fst (snd (tail_log (default_config\<lparr>MAINTENANCE_MODE := True, WINDOW_SIZE := 1\<rparr>)
        [((1700000000, 1700000001), ''pool=blue release=v1 upstream_status=500''),
         ((1700000010, 1700000011), ''pool=green release=v1 upstream_status=500''),
         ((1700000400, 1700000401), ''pool=blue release=v1 upstream_status=500'')] initial)))
     = 1700000400
   \<and> slack_posts (fst (tail_log (default_config\<lparr>WINDOW_SIZE := 1\<rparr>)
        [((1700000000, 1700000001), ''pool=blue release=v1 upstream_status=500''),
         ((1700000010, 1700000011), ''pool=green release=v1 upstream_status=500''),
         ((1700000400, 1700000401), ''pool=blue release=v1 upstream_status=500'')] initial))
     = [ErrorAlert 100 1 1, FailoverAlert ''blue'' ''green'', FailoverAlert ''green'' ''blue'',
        ErrorAlert 100 1 1]"
proof -
  let ?e = "default_config\<lparr>SLACK_WEBHOOK := [], WINDOW_SIZE := 1\<rparr>"
  let ?m = "default_config\<lparr>MAINTENANCE_MODE := True\<rparr>"
  let ?m1 = "default_config\<lparr>MAINTENANCE_MODE := True, WINDOW_SIZE := 1\<rparr>"
  let ?on = "default_config\<lparr>WINDOW_SIZE := 1\<rparr>"
  let ?input = "[((1700000000, 1700000001), ''pool=blue release=v1 upstream_status=500''),
         ((1700000010, 1700000011), ''pool=green release=v1 upstream_status=500''),
         ((1700000400, 1700000401), ''pool=blue release=v1 upstream_status=500'')]"
  have he: "SLACK_WEBHOOK ?e = [] \<or> MAINTENANCE_MODE ?e" by simp
  have hm: "SLACK_WEBHOOK ?m = [] \<or> MAINTENANCE_MODE ?m" by simp
  have hm1: "SLACK_WEBHOOK ?m1 = [] \<or> MAINTENANCE_MODE ?m1" by simp
  have on: "?e\<lparr>SLACK_WEBHOOK := SLACK_WEBHOOK default_config, MAINTENANCE_MODE := False\<rparr> = ?on"
    by (simp add: default_config_def)
  have bt: "breach_trigger ?e (initial\<lparr>request_window := [500]\<rparr>)" by code_simp
  have ce: "cooldown_over ?e 1700000001 (last_error_alert (initial\<lparr>request_window := [500]\<rparr>))"
    by code_simp
  have cf: "cooldown_over ?m 1700000010 (last_failover_alert (initial\<lparr>last_pool := Some ''blue''\<rparr>))"
    by code_simp
  have er: "error_rate (request_window (initial\<lparr>request_window := [500]\<rparr>)) = 100" by code_simp
  have fl: "failover_log ?e ?input initial = [(1700000010, True), (1700000400, True)]"
    by code_simp
  have el: "error_log ?e ?input initial
      = [(1700000001, True), (1700000011, False), (1700000401, True)]"
    by code_simp
  have fl1: "failover_log ?m1 ?input initial = [(1700000010, True), (1700000400, True)]"
    by code_simp
  have ps: "slack_posts (fst (tail_log ?on ?input initial))
      = [ErrorAlert 100 1 1, FailoverAlert ''blue'' ''green'', FailoverAlert ''green'' ''blue'',
         ErrorAlert 100 1 1]"
    by code_simp
  have t0: "last_failover_alert initial = 0" "last_error_alert initial = 0"
    by (simp_all add: initial_def)
  have 1: "check_error_rate ?e 1700000001 (initial\<lparr>request_window := [500]\<rparr>)
     = ([CheckErrorRateCall, BreachEvent 100, SuppressedPrinted ''error''],
        initial\<lparr>request_window := [500], last_error_alert := 1700000001\<rparr>, None)"
    using dropped_alerts_update_cooldown [OF he, where s = "initial\<lparr>request_window := [500]\<rparr>"
        and now = 1700000001] bt ce er
    by simp
  have 2: "detect_failover ?m 1700000010 ''green'' (initial\<lparr>last_pool := Some ''blue''\<rparr>)
     = ([DetectFailoverCall ''green'', FailoverEvent ''blue'' ''green'',
         SuppressedPrinted ''failover'', FailoverPrinted ''blue'' ''green''],
        initial\<lparr>last_pool := Some ''green'', last_failover_alert := 1700000010\<rparr>)"
    using dropped_alerts_update_cooldown [OF hm, where s = "initial\<lparr>last_pool := Some ''blue''\<rparr>"
        and now = 1700000010 and old = "''blue''" and p = "''green''"] cf
    by (simp add: initial_def)
  note r = dropped_alerts_update_cooldown [OF he, where input = ?input and s = initial
        and url = "SLACK_WEBHOOK default_config" and mm = False]
  have 3: "slack_posts (fst (tail_log ?e ?input initial)) = []"
    using r by blast
  have "tail_log ?e ?input initial
      = (map drop_post (fst (tail_log ?on ?input initial)), snd (tail_log ?on ?input initial))"
    using r unfolding on by blast
  from arg_cong [OF this, of snd]
  have 4: "snd (tail_log ?e ?input initial) = snd (tail_log ?on ?input initial)"
    by (simp only: snd_conv)
  have "last_failover_alert (fst (snd (tail_log ?e ?input initial)))
      = last_dispatch (last_failover_alert initial) (failover_log ?e ?input initial)"
    using r by blast
  then have 5: "last_failover_alert (fst (snd (tail_log ?e ?input initial))) = 1700000400"
    unfolding fl t0 by (simp only: last_dispatch.simps if_True)
  have "last_error_alert (fst (snd (tail_log ?e ?input initial)))
      = last_dispatch (last_error_alert initial) (error_log ?e ?input initial)"
    using r by blast
  then have 6: "last_error_alert (fst (snd (tail_log ?e ?input initial))) = 1700000401"
    unfolding el t0 by (simp only: last_dispatch.simps if_True if_False)
  have "last_failover_alert (fst (snd (tail_log ?m1 ?input initial)))
      = last_dispatch (last_failover_alert initial) (failover_log ?m1 ?input initial)"
    using dropped_alerts_update_cooldown [OF hm1, where input = ?input and s = initial] by blast
  then have 7: "last_failover_alert (fst (snd (tail_log ?m1 ?input initial))) = 1700000400"
    unfolding fl1 t0 by (simp only: last_dispatch.simps if_True)
  show ?thesis
    using 1 2 3 4 5 6 7 ps by blast
qed

end
